theory Spec2Isabelle
  imports Complex_Main "HOL-Library.Product_Lexorder" "HOL-Library.Sublist"
begin

section \<open>Numbers\<close>

text \<open>
  The planner computes with Python numbers. Day counts, traveller counts, the budget and
  the flight estimate are Python \<open>int\<close>s and are modelled as \<open>int\<close>. Prices are Python
  \<open>float\<close>s; they are modelled as exact rationals: a double that holds the nearest
  value to a decimal amount is that amount in the model, so the binary representation
  error of IEEE doubles is outside the model, and so are \<open>NaN\<close> and the infinities (a
  missing figure in the catalogue). \<open>float("inf")\<close>, which \<open>choose_destination\<close> uses as
  the initial best total, is modelled as \<open>None\<close> of \<open>rat option\<close>.

  The representation error matters in one place: \<open>compute_budget\<close> and
  \<open>validate_and_adjust\<close> compare the float sum \<open>total_est + activities_est\<close> with the
  budget, and store the rounded sum. The two summands are amounts in cents. When they
  have opposite signs, the float sum can lie on the other side of the budget than the sum
  of the amounts (\<open>2048.28 + -48.28\<close> is \<open>2000.0000000000002\<close> in doubles, above a budget
  of \<open>2000\<close>, while the stored total is \<open>2000.0\<close>). A negative summand needs a negative
  price in the catalogue or a day count below one, which the data model excludes; the
  statement about the flag below is therefore made for non-negative prices and positive
  counts, where both summands are shown to be non-negative.

  \<open>round(x, 2)\<close> rounds to the nearest multiple of \<open>0.01\<close>, a tie going to the even
  neighbour.
\<close>

definition round_half_even :: "rat \<Rightarrow> int" where
  "round_half_even x =
     (let f = \<lfloor>x\<rfloor>; r = x - of_int f in
      if r < 1 / 2 then f
      else if 1 / 2 < r then f + 1
      else if even f then f else f + 1)"

definition round2 :: "rat \<Rightarrow> rat" where
  "round2 x = of_int (round_half_even (x * 100)) / 100"

text \<open>An amount with at most two decimals: a whole number of cents.\<close>

definition is_cents :: "rat \<Rightarrow> bool" where
  "is_cents x = (of_int \<lfloor>x * 100\<rfloor> = x * 100)"

section \<open>Text\<close>

text \<open>
  Requests, city names and tags are Python \<open>str\<close> values: sequences of Unicode code
  points, modelled as lists of numbers. \<open>cps\<close> gives the code points of a literal
  written in ASCII.

  What \<open>lower()\<close>, \<open>strip()\<close>, \<open>int()\<close> and the classes \<open>\d\<close>, \<open>\s\<close>, \<open>\w\<close> and
  \<open>\b\<close> of \<open>re\<close> do with a code point is decided by the Unicode database of the Python
  runtime, which is not part of the repository. The functions that use it take it as
  their argument \<open>u\<close>: the decimal value of a code point (\<open>0\<close> to \<open>9\<close>; \<open>None\<close> when it is
  no decimal digit), whether it is white space, whether it is alphanumeric, and the
  lower-case form of a text. The theorems hold for every such database.
\<close>

type_synonym pystr = "nat list"

definition cps :: "string \<Rightarrow> pystr" where
  "cps s = map of_char s"

record pydb =
  db_decimal :: "nat \<Rightarrow> nat option"
  db_space :: "nat \<Rightarrow> bool"
  db_alnum :: "nat \<Rightarrow> bool"
  db_lower :: "pystr \<Rightarrow> pystr"

definition str_lower :: "pydb \<Rightarrow> pystr \<Rightarrow> pystr" where
  "str_lower u s = db_lower u s"

text \<open>\<open>sub in s\<close>, the substring test.\<close>

fun str_contains :: "pystr \<Rightarrow> pystr \<Rightarrow> bool" where
  "str_contains sub [] = (sub = [])"
| "str_contains sub (c # cs) = (take (length sub) (c # cs) = sub \<or> str_contains sub cs)"

section \<open>Data model\<close>

text \<open>A row of \<open>data/destinations.csv\<close>.\<close>

record destination =
  d_city :: pystr
  d_country :: pystr
  d_region :: pystr
  style_tags :: pystr
  avg_lodging_per_night :: rat
  avg_food_per_day :: rat
  avg_local_transport_per_day :: rat

text \<open>A row of \<open>data/attractions.csv\<close>.\<close>

record attraction =
  a_city :: pystr
  a_name :: pystr
  tag :: pystr
  typical_hours :: rat
  cost_est :: rat

text \<open>The dictionaries \<open>{"day": d, "items": day_items}\<close> and
  \<open>{"city": city, "days": days, "pace": pace, "plan": plan}\<close> of \<open>build_itinerary\<close>.\<close>

record day_plan =
  day :: int
  items :: "attraction list"

record itinerary =
  it_city :: pystr
  it_days :: int
  it_pace :: pystr
  plan :: "day_plan list"

text \<open>The dictionary \<open>estimate_budget\<close> returns, and the dictionary \<open>{**base, ...}\<close> of
  \<open>compute_budget\<close> and \<open>validate_and_adjust\<close>, which has the keys of \<open>base\<close> and the
  three keys \<open>activities_est\<close>, \<open>grand_total_est\<close> and \<open>within_budget\<close>.\<close>

record base_budget =
  lodging :: rat
  food :: rat
  local_transport :: rat
  flights_est :: rat
  total_est :: rat

record budget_breakdown = base_budget +
  activities_est :: rat
  grand_total_est :: rat
  within_budget :: bool

text \<open>The \<open>constraints\<close> dictionary of \<open>parse_request\<close>.\<close>

record constraints =
  origin :: pystr
  days :: int
  travelers :: int
  budget :: int
  region :: "pystr option"
  pace :: pystr
  interests :: "pystr list"
  month_hint :: "pystr option"
  flight_est_per_person :: int

section \<open>Budget arithmetic (tools.py)\<close>

definition estimate_budget :: "destination \<Rightarrow> int \<Rightarrow> int \<Rightarrow> rat \<Rightarrow> base_budget" where
  "estimate_budget dest n_days n_travelers flight_pp =
     (let lodging_v = avg_lodging_per_night dest * of_int (n_days - 1);
          food_v = avg_food_per_day dest * of_int n_days * of_int n_travelers;
          local_v = avg_local_transport_per_day dest * of_int n_days * of_int n_travelers;
          flights_v = flight_pp * of_int n_travelers;
          total_v = lodging_v + food_v + local_v + flights_v
      in \<lparr>lodging = round2 lodging_v,
          food = round2 food_v,
          local_transport = round2 local_v,
          flights_est = round2 flights_v,
          total_est = round2 total_v\<rparr>)"

text \<open>The two nested loops of \<open>estimate_activity_cost\<close> add the costs to a running
  total, day by day and item by item.\<close>

definition estimate_activity_cost :: "itinerary \<Rightarrow> rat" where
  "estimate_activity_cost itin =
     round2 (fold (\<lambda>d total. fold (\<lambda>it total. total + cost_est it) (items d) total)
                  (plan itin) 0)"

section \<open>The itinerary builder (tools.py)\<close>

text \<open>
  \<open>build_itinerary\<close> reads \<open>data/attractions.csv\<close>; the rows read are an argument of the
  model. The data frame is filtered by city, sorted (pandas sorts several columns
  stably; the order of rows with equal keys is not used below) and turned into the list
  \<open>items\<close>, which the two loops walk with the index \<open>idx\<close>.
\<close>

definition blocks_per_day :: "pystr \<Rightarrow> nat" where
  "blocks_per_day p =
     (if p = cps ''slow'' then 2 else if p = cps ''medium'' then 3
      else if p = cps ''fast'' then 4 else 3)"

definition match_interest :: "pydb \<Rightarrow> pystr list \<Rightarrow> attraction \<Rightarrow> int" where
  "match_interest u ints r =
     (if list_ex (\<lambda>i. str_contains (str_lower u i) (str_lower u (tag r))) ints then 1 else 0)"

definition city_rows :: "pydb \<Rightarrow> attraction list \<Rightarrow> pystr \<Rightarrow> attraction list" where
  "city_rows u attrs c = filter (\<lambda>r. str_lower u (a_city r) = str_lower u c) attrs"

definition sort_rows :: "pydb \<Rightarrow> pystr list \<Rightarrow> attraction list \<Rightarrow> attraction list" where
  "sort_rows u ints df =
     (if ints \<noteq> [] then sort_key (\<lambda>r. (- match_interest u ints r, cost_est r)) df
      else sort_key cost_est df)"

text \<open>The inner loop \<open>for _ in range(blocks_per_day)\<close>, with its \<open>break\<close>.\<close>

fun fill_day :: "nat \<Rightarrow> attraction list \<Rightarrow> nat \<Rightarrow> attraction list \<Rightarrow> attraction list \<times> nat" where
  "fill_day 0 its idx day_items = (day_items, idx)"
| "fill_day (Suc k) its idx day_items =
     (if idx \<ge> length its then (day_items, idx)
      else fill_day k its (Suc idx) (day_items @ [its ! idx]))"

text \<open>The outer loop \<open>for d in range(1, days + 1)\<close>.\<close>

fun build_days :: "int list \<Rightarrow> nat \<Rightarrow> attraction list \<Rightarrow> nat \<Rightarrow> day_plan list \<Rightarrow> day_plan list" where
  "build_days [] bpd its idx acc = acc"
| "build_days (d # ds) bpd its idx acc =
     (case fill_day bpd its idx [] of
        (day_items, idx') \<Rightarrow> build_days ds bpd its idx' (acc @ [\<lparr>day = d, items = day_items\<rparr>]))"

definition build_itinerary ::
    "pydb \<Rightarrow> attraction list \<Rightarrow> pystr \<Rightarrow> int \<Rightarrow> pystr list \<Rightarrow> pystr \<Rightarrow> itinerary" where
  "build_itinerary u attrs c n ints p =
     \<lparr>it_city = c, it_days = n, it_pace = p,
      plan = build_days [1..n] (blocks_per_day p) (sort_rows u ints (city_rows u attrs c)) 0 []\<rparr>"

section \<open>The budget adjuster (tools.py)\<close>

text \<open>
  \<open>adjust_itinerary_for_budget\<close> walks the days in order with one counter \<open>paid_seen\<close>
  for the whole itinerary. The inner loop builds \<open>new_items\<close> for one day.
\<close>

fun adjust_items :: "int \<Rightarrow> attraction list \<Rightarrow> int \<Rightarrow> attraction list \<Rightarrow> attraction list \<times> int" where
  "adjust_items max_paid [] paid_seen new_items = (new_items, paid_seen)"
| "adjust_items max_paid (it # its) paid_seen new_items =
     (if cost_est it \<le> 0 then adjust_items max_paid its paid_seen (new_items @ [it])
      else if paid_seen < max_paid
           then adjust_items max_paid its (paid_seen + 1) (new_items @ [it])
           else adjust_items max_paid its paid_seen new_items)"

fun adjust_days :: "int \<Rightarrow> day_plan list \<Rightarrow> int \<Rightarrow> day_plan list \<times> int" where
  "adjust_days max_paid [] paid_seen = ([], paid_seen)"
| "adjust_days max_paid (d # ds) paid_seen =
     (case adjust_items max_paid (items d) paid_seen [] of
        (new_items, paid_seen') \<Rightarrow>
          (case adjust_days max_paid ds paid_seen' of
             (ds', n) \<Rightarrow> (d\<lparr>items := new_items\<rparr> # ds', n)))"

definition adjust_itinerary_for_budget :: "itinerary \<Rightarrow> int \<Rightarrow> itinerary" where
  "adjust_itinerary_for_budget itin max_paid =
     itin\<lparr>plan := fst (adjust_days max_paid (plan itin) 0)\<rparr>"

text \<open>A paid activity costs more than nothing; every other item is free.\<close>

definition paid :: "attraction \<Rightarrow> bool" where
  "paid it = (0 < cost_est it)"

definition free :: "attraction \<Rightarrow> bool" where
  "free it = (cost_est it \<le> 0)"

section \<open>The request parser (graph.py)\<close>

text \<open>
  \<open>parse_request\<close> searches the lower-cased request with three regular expressions.
  Python's \<open>re\<close> is a backtracking matcher: it tries the start positions from left to
  right and, at one position, the alternatives and the repetition counts in a fixed
  order (the first alternative first, the longest repetition first), and returns the
  first match it completes. The model follows it: a piece of a pattern maps a position
  to the list of positions where it can end, in the order the matcher tries them, and a
  pattern is the sequence of its pieces.

  On a \<open>str\<close>, \<open>\d\<close> is a code point with a decimal value, \<open>\s\<close> is a white-space code
  point, and \<open>\w\<close> is an alphanumeric code point or the underscore (code point 95).
\<close>

definition is_digit :: "pydb \<Rightarrow> nat \<Rightarrow> bool" where
  "is_digit u c = (case db_decimal u c of None \<Rightarrow> False | Some v \<Rightarrow> v < 10)"

definition digit_value :: "pydb \<Rightarrow> nat \<Rightarrow> nat" where
  "digit_value u c = (case db_decimal u c of None \<Rightarrow> 0 | Some v \<Rightarrow> v)"

definition is_space :: "pydb \<Rightarrow> nat \<Rightarrow> bool" where
  "is_space u c = db_space u c"

definition is_word :: "pydb \<Rightarrow> nat \<Rightarrow> bool" where
  "is_word u c = (db_alnum u c \<or> c = 95)"

definition strip :: "pydb \<Rightarrow> pystr \<Rightarrow> pystr" where
  "strip u s = rev (dropWhile (is_space u) (rev (dropWhile (is_space u) s)))"

definition at_word_boundary :: "pydb \<Rightarrow> pystr \<Rightarrow> nat \<Rightarrow> bool" where
  "at_word_boundary u s i =
     ((0 < i \<and> i \<le> length s \<and> is_word u (s ! (i - 1)))
      \<noteq> (i < length s \<and> is_word u (s ! i)))"

text \<open>\<open>\b\<close>, a literal, \<open>\s*\<close>, \<open>\s+\<close>, an optional character and \<open>\d{lo,hi}\<close>.\<close>

definition m_boundary :: "pydb \<Rightarrow> pystr \<Rightarrow> nat \<Rightarrow> nat list" where
  "m_boundary u s i = (if at_word_boundary u s i then [i] else [])"

definition m_lit :: "pystr \<Rightarrow> pystr \<Rightarrow> nat \<Rightarrow> nat list" where
  "m_lit l s i = (if take (length l) (drop i s) = l then [i + length l] else [])"

definition m_spaces :: "pydb \<Rightarrow> pystr \<Rightarrow> nat \<Rightarrow> nat list" where
  "m_spaces u s i =
     map (\<lambda>k. i + k) (rev [0..<Suc (length (takeWhile (is_space u) (drop i s)))])"

definition m_spaces1 :: "pydb \<Rightarrow> pystr \<Rightarrow> nat \<Rightarrow> nat list" where
  "m_spaces1 u s i =
     map (\<lambda>k. i + k) (rev [1..<Suc (length (takeWhile (is_space u) (drop i s)))])"

definition m_opt :: "nat \<Rightarrow> pystr \<Rightarrow> nat \<Rightarrow> nat list" where
  "m_opt c s i = (if i < length s \<and> s ! i = c then [Suc i, i] else [i])"

definition m_digits :: "pydb \<Rightarrow> nat \<Rightarrow> nat \<Rightarrow> pystr \<Rightarrow> nat \<Rightarrow> nat list" where
  "m_digits u lo hi s i =
     map (\<lambda>k. i + k) (rev [lo..<Suc (min hi (length (takeWhile (is_digit u) (drop i s))))])"

text \<open>The text of a group that starts at \<open>a\<close> and ends at \<open>b\<close>.\<close>

definition group_text :: "pystr \<Rightarrow> nat \<Rightarrow> nat \<Rightarrow> pystr" where
  "group_text s a b = take (b - a) (drop a s)"

text \<open>\<open>re.search\<close>: the first match at the leftmost position that has one. A match is
  given by its groups.\<close>

definition re_search :: "(pystr \<Rightarrow> nat \<Rightarrow> 'g list) \<Rightarrow> pystr \<Rightarrow> 'g option" where
  "re_search m s =
     (case concat (map (m s) [0..<Suc (length s)]) of [] \<Rightarrow> None | g # _ \<Rightarrow> Some g)"

text \<open>\<^verbatim>\<open>\b(\d{1,2})\s*-\s*day\b|\b(\d{1,2})\s*day\b\<close>, groups 1 and 2.\<close>

definition re_days :: "pydb \<Rightarrow> pystr \<Rightarrow> nat \<Rightarrow> (pystr option \<times> pystr option) list" where
  "re_days u s i =
     [(Some (group_text s a b), None).
        a \<leftarrow> m_boundary u s i, b \<leftarrow> m_digits u 1 2 s a, c \<leftarrow> m_spaces u s b,
        d \<leftarrow> m_lit (cps ''-'') s c, e \<leftarrow> m_spaces u s d, f \<leftarrow> m_lit (cps ''day'') s e,
        g \<leftarrow> m_boundary u s f]
     @ [(None, Some (group_text s a b)).
        a \<leftarrow> m_boundary u s i, b \<leftarrow> m_digits u 1 2 s a, c \<leftarrow> m_spaces u s b,
        f \<leftarrow> m_lit (cps ''day'') s c, g \<leftarrow> m_boundary u s f]"

text \<open>\<^verbatim>\<open>\bbudget\s*\$?\s*(\d{3,6})\b|\bunder\s*\$?\s*(\d{3,6})\b\<close>, groups 1 and 2.
  The dollar sign is code point 36.\<close>

definition re_budget :: "pydb \<Rightarrow> pystr \<Rightarrow> nat \<Rightarrow> (pystr option \<times> pystr option) list" where
  "re_budget u s i =
     [(Some (group_text s e f), None).
        a \<leftarrow> m_boundary u s i, b \<leftarrow> m_lit (cps ''budget'') s a, c \<leftarrow> m_spaces u s b,
        d \<leftarrow> m_opt 36 s c, e \<leftarrow> m_spaces u s d, f \<leftarrow> m_digits u 3 6 s e,
        g \<leftarrow> m_boundary u s f]
     @ [(None, Some (group_text s e f)).
        a \<leftarrow> m_boundary u s i, b \<leftarrow> m_lit (cps ''under'') s a, c \<leftarrow> m_spaces u s b,
        d \<leftarrow> m_opt 36 s c, e \<leftarrow> m_spaces u s d, f \<leftarrow> m_digits u 3 6 s e,
        g \<leftarrow> m_boundary u s f]"

text \<open>\<^verbatim>\<open>\bfor\s+(\d{1,2})\s+(people|persons|travelers)\b\<close>, group 1.\<close>

definition re_travelers :: "pydb \<Rightarrow> pystr \<Rightarrow> nat \<Rightarrow> pystr list" where
  "re_travelers u s i =
     [group_text s c d.
        a \<leftarrow> m_boundary u s i, b \<leftarrow> m_lit (cps ''for'') s a, c \<leftarrow> m_spaces1 u s b,
        d \<leftarrow> m_digits u 1 2 s c, e \<leftarrow> m_spaces1 u s d,
        f \<leftarrow> m_lit (cps ''people'') s e @ m_lit (cps ''persons'') s e
                      @ m_lit (cps ''travelers'') s e,
        g \<leftarrow> m_boundary u s f]"

text \<open>\<open>m.group(1) or m.group(2)\<close>: a group that did not take part is \<open>None\<close>, and
  \<open>None\<close> and the empty string are false.\<close>

definition group_or :: "pystr option \<Rightarrow> pystr option \<Rightarrow> pystr option" where
  "group_or g1 g2 = (case g1 of None \<Rightarrow> g2 | Some v \<Rightarrow> if v = [] then g2 else Some v)"

text \<open>\<open>int(x)\<close> on a text of decimal digits, each read by its decimal value; \<open>None\<close>
  stands for the exception on any other text (the patterns hand over digits only, so
  the signs, blanks and underscores \<open>int\<close> also reads are left out). \<open>_safe_int\<close>
  returns the default on an exception, and \<open>int(None)\<close> raises.\<close>

definition py_int :: "pydb \<Rightarrow> pystr \<Rightarrow> int option" where
  "py_int u x =
     (if x \<noteq> [] \<and> list_all (is_digit u) x
      then Some (foldl (\<lambda>n c. 10 * n + int (digit_value u c)) 0 x) else None)"

definition safe_int :: "pydb \<Rightarrow> pystr option \<Rightarrow> int \<Rightarrow> int" where
  "safe_int u x dflt =
     (case x of None \<Rightarrow> dflt
      | Some v \<Rightarrow> (case py_int u v of None \<Rightarrow> dflt | Some n \<Rightarrow> n))"

text \<open>\<open>mo.title()\<close> of one of the month names below, a lower-case ASCII word: its first
  letter in upper case.\<close>

definition title_word :: "pystr \<Rightarrow> pystr" where
  "title_word w =
     (case w of [] \<Rightarrow> []
      | c # cs \<Rightarrow> (if 97 \<le> c \<and> c \<le> 122 then c - 32 else c) # cs)"

definition regions :: "pystr list" where
  "regions = map cps [''europe'', ''asia'', ''americas'']"

definition paces :: "pystr list" where
  "paces = map cps [''slow'', ''medium'', ''fast'']"

definition possible :: "pystr list" where
  "possible = map cps [''food'', ''museums'', ''nature'', ''walk'', ''history'', ''shopping'',
     ''architecture'', ''coastal'', ''scenic'', ''art'', ''nightlife'', ''markets'', ''roadtrip'']"

definition months :: "pystr list" where
  "months = map cps [''january'', ''february'', ''march'', ''april'', ''may'', ''june'', ''july'',
     ''august'', ''september'', ''october'', ''november'', ''december'']"

definition default_constraints :: constraints where
  "default_constraints =
     \<lparr>origin = cps ''Boston'', days = 5, travelers = 2, budget = 2000, region = None,
      pace = cps ''medium'', interests = [cps ''food'', cps ''museums''], month_hint = None,
      flight_est_per_person = 450\<rparr>"

text \<open>The constraints \<open>parse_request\<close> reads from the request text.\<close>

definition parse_constraints :: "pydb \<Rightarrow> pystr \<Rightarrow> constraints" where
  "parse_constraints u request =
     (let txt = strip u request;
          low = str_lower u txt;
          c0 = default_constraints;
          c1 = (case re_search (re_days u) low of None \<Rightarrow> c0
                | Some (g1, g2) \<Rightarrow> c0\<lparr>days := safe_int u (group_or g1 g2) (days c0)\<rparr>);
          c2 = (case re_search (re_budget u) low of None \<Rightarrow> c1
                | Some (g1, g2) \<Rightarrow> c1\<lparr>budget := safe_int u (group_or g1 g2) (budget c1)\<rparr>);
          c3 = (case re_search (re_travelers u) low of None \<Rightarrow> c2
                | Some g1 \<Rightarrow> c2\<lparr>travelers := safe_int u (Some g1) (travelers c2)\<rparr>);
          c4 = (case find (\<lambda>r. str_contains r low) regions of None \<Rightarrow> c3
                | Some r \<Rightarrow> c3\<lparr>region := Some r\<rparr>);
          c5 = (case find (\<lambda>p. str_contains p low) paces of None \<Rightarrow> c4
                | Some p \<Rightarrow> c4\<lparr>pace := p\<rparr>);
          found = filter (\<lambda>k. str_contains k low) possible;
          c6 = (if found \<noteq> [] then c5\<lparr>interests := take 3 found\<rparr> else c5);
          c7 = (case find (\<lambda>mo. str_contains mo low) months of None \<Rightarrow> c6
                | Some mo \<Rightarrow> c6\<lparr>month_hint := Some (title_word mo)\<rparr>)
      in c7)"

section \<open>Destination search and trip concepts (tools.py)\<close>

text \<open>
  \<open>search_destinations\<close> reads \<open>data/destinations.csv\<close>; the rows read are an argument
  of the model. \<open>split(",")\<close> cuts the tag text at every comma (code point 44).
\<close>

fun split_on :: "nat \<Rightarrow> pystr \<Rightarrow> pystr list" where
  "split_on c [] = [[]]"
| "split_on c (x # xs) =
     (if x = c then [] # split_on c xs
      else (case split_on c xs of [] \<Rightarrow> [[x]] | w # ws \<Rightarrow> (x # w) # ws))"

definition score_tags :: "pydb \<Rightarrow> pystr list \<Rightarrow> destination \<Rightarrow> int" where
  "score_tags u ints row =
     (let tags = map (strip u) (split_on 44 (str_lower u (style_tags row)))
      in int (length (filter (\<lambda>i. str_lower u i \<in> set tags) ints)))"

definition search_destinations ::
    "pydb \<Rightarrow> destination list \<Rightarrow> pystr option \<Rightarrow> pystr list \<Rightarrow> destination list" where
  "search_destinations u dests reg ints =
     (let df = (case reg of
                  None \<Rightarrow> dests
                | Some r \<Rightarrow> if r = [] then dests
                            else filter (\<lambda>d. str_lower u (d_region d) = str_lower u r) dests)
      in take 4 (sort_key (\<lambda>d. (- score_tags u ints d, avg_lodging_per_night d)) df))"

record trip_concept =
  title :: pystr
  concept_city :: pystr
  why :: pystr
  concept_destination :: destination

fun str_join :: "pystr \<Rightarrow> pystr list \<Rightarrow> pystr" where
  "str_join sep [] = []"
| "str_join sep [x] = x"
| "str_join sep (x # y # ys) = x @ sep @ str_join sep (y # ys)"

text \<open>The title has a long dash, code point 8212.\<close>

definition propose_trip_concepts :: "constraints \<Rightarrow> destination list \<Rightarrow> trip_concept list" where
  "propose_trip_concepts c candidates =
     map (\<lambda>d.
        \<lparr>title = d_city d @ cps '' '' @ [8212]
                 @ cps '' '' @ pace c @ cps '' pace, aligned with ''
                 @ (if interests c \<noteq> [] then str_join (cps '', '') (interests c)
                    else cps ''general sightseeing''),
         concept_city = d_city d,
         why = cps ''Tags: '' @ style_tags d
               @ cps ''. Good fit for budget and interests based on dataset.'',
         concept_destination = d\<rparr>) candidates"

section \<open>The workflow state and its trace (state.py, graph.py)\<close>

text \<open>
  \<open>AgentState\<close> is a dictionary whose keys may be absent: a field is \<open>None\<close> while its
  key is absent. \<open>selected_destination\<close> can also hold Python's \<open>None\<close>, which is
  \<open>Some None\<close>. A stage that reads an absent key raises \<open>KeyError\<close>, and one that
  subscripts \<open>None\<close> raises \<open>TypeError\<close>. The stages update the state they are given and
  return it; the model returns the updated state. (The trace entry of \<open>build_plan\<close>
  shares its day dictionary with the itinerary, which the adjuster later updates in
  place; the model's trace keeps the day as it was when the entry was written.)
\<close>

datatype py_error = KeyError string | TypeError string

datatype payload =
    P_constraints constraints
  | P_options "trip_concept list"
  | P_selected "destination option" "rat option"
  | P_itinerary_preview "day_plan list"
  | P_budget budget_breakdown
  | P_no_change
  | P_reduced int budget_breakdown
  | P_final pystr

type_synonym trace_entry = "string \<times> payload"

record agent_state =
  user_request :: "pystr option"
  st_constraints :: "constraints option"
  trip_options :: "trip_concept list option"
  selected_destination :: "destination option option"
  st_itinerary :: "itinerary option"
  st_budget :: "budget_breakdown option"
  checklist :: "pystr list option"
  final_plan :: "pystr option"
  history :: "trace_entry list"

text \<open>The text the three patterns are searched in: the request, stripped and in lower
  case (\<open>state.get("user_request") or ""\<close> for an absent request).\<close>

definition request_text :: "pydb \<Rightarrow> agent_state \<Rightarrow> pystr" where
  "request_text u s =
     str_lower u (strip u (case user_request s of None \<Rightarrow> [] | Some t \<Rightarrow> t))"

definition push :: "agent_state \<Rightarrow> string \<Rightarrow> payload \<Rightarrow> agent_state" where
  "push state node p = state\<lparr>history := history state @ [(node, p)]\<rparr>"

definition parse_request :: "pydb \<Rightarrow> agent_state \<Rightarrow> py_error + agent_state" where
  "parse_request u state =
     (let c = parse_constraints u (case user_request state of None \<Rightarrow> [] | Some t \<Rightarrow> t)
      in Inr (push (state\<lparr>st_constraints := Some c\<rparr>) ''parse_request'' (P_constraints c)))"

definition make_options ::
    "pydb \<Rightarrow> destination list \<Rightarrow> agent_state \<Rightarrow> py_error + agent_state" where
  "make_options u dests state =
     (case st_constraints state of
        None \<Rightarrow> Inl (KeyError ''constraints'')
      | Some c \<Rightarrow>
          (let candidates = search_destinations u dests (region c) (interests c);
               options = propose_trip_concepts c candidates
           in Inr (push (state\<lparr>trip_options := Some options\<rparr>)
                     ''propose_options'' (P_options options))))"

text \<open>The rough total of a concept: the \<open>total_est\<close> of the budget estimate of its
  destination, without activities.\<close>

definition rough_total :: "constraints \<Rightarrow> trip_concept \<Rightarrow> rat" where
  "rough_total c opt =
     total_est (estimate_budget (concept_destination opt) (days c) (travelers c)
                  (of_int (flight_est_per_person c)))"

text \<open>The loop of \<open>choose_destination\<close> over the options, with \<open>best\<close> and
  \<open>best_total\<close>; \<open>best_total = None\<close> is the initial \<open>float("inf")\<close>, above every
  total.\<close>

fun choose_loop ::
    "constraints \<Rightarrow> trip_concept list \<Rightarrow> destination option \<Rightarrow> rat option
      \<Rightarrow> destination option \<times> rat option" where
  "choose_loop c [] best best_total = (best, best_total)"
| "choose_loop c (opt # opts) best best_total =
     (let dest = concept_destination opt;
          total = rough_total c opt
      in if (case best_total of None \<Rightarrow> True | Some b \<Rightarrow> total < b)
         then choose_loop c opts (Some dest) (Some total)
         else choose_loop c opts best best_total)"

definition choose_destination :: "agent_state \<Rightarrow> py_error + agent_state" where
  "choose_destination state =
     (case st_constraints state of
        None \<Rightarrow> Inl (KeyError ''constraints'')
      | Some c \<Rightarrow>
          (let options = (case trip_options state of None \<Rightarrow> [] | Some os \<Rightarrow> os)
           in case choose_loop c options None None of
                (best, best_total) \<Rightarrow>
                  Inr (push (state\<lparr>selected_destination := Some best\<rparr>)
                         ''choose_destination'' (P_selected best best_total))))"

definition build_plan ::
    "pydb \<Rightarrow> attraction list \<Rightarrow> agent_state \<Rightarrow> py_error + agent_state" where
  "build_plan u attrs state =
     (case st_constraints state of
        None \<Rightarrow> Inl (KeyError ''constraints'')
      | Some c \<Rightarrow>
          (case selected_destination state of
             None \<Rightarrow> Inl (KeyError ''selected_destination'')
           | Some None \<Rightarrow> Inl (TypeError ''NoneType object is not subscriptable'')
           | Some (Some dest) \<Rightarrow>
               (let itin = build_itinerary u attrs (d_city dest) (days c) (interests c) (pace c)
                in Inr (push (state\<lparr>st_itinerary := Some itin\<rparr>)
                          ''build_itinerary'' (P_itinerary_preview (take 1 (plan itin)))))))"

definition compute_budget :: "agent_state \<Rightarrow> py_error + agent_state" where
  "compute_budget state =
     (case st_constraints state of
        None \<Rightarrow> Inl (KeyError ''constraints'')
      | Some c \<Rightarrow>
          (case selected_destination state of
             None \<Rightarrow> Inl (KeyError ''selected_destination'')
           | Some None \<Rightarrow> Inl (TypeError ''NoneType object is not subscriptable'')
           | Some (Some dest) \<Rightarrow>
               (let base = estimate_budget dest (days c) (travelers c)
                             (of_int (flight_est_per_person c))
                in case st_itinerary state of
                     None \<Rightarrow> Inl (KeyError ''itinerary'')
                   | Some itin \<Rightarrow>
                       (let act = estimate_activity_cost itin;
                            total = total_est base + act;
                            b = \<lparr>lodging = lodging base, food = food base,
                                 local_transport = local_transport base,
                                 flights_est = flights_est base, total_est = total_est base,
                                 activities_est = act, grand_total_est = round2 total,
                                 within_budget = (total \<le> of_int (budget c))\<rparr>
                        in Inr (push (state\<lparr>st_budget := Some b\<rparr>)
                                  ''estimate_budget'' (P_budget b))))))"

definition validate_and_adjust :: "agent_state \<Rightarrow> py_error + agent_state" where
  "validate_and_adjust state =
     (case st_constraints state of
        None \<Rightarrow> Inl (KeyError ''constraints'')
      | Some c \<Rightarrow>
          (case st_budget state of
             None \<Rightarrow> Inl (KeyError ''budget'')
           | Some b \<Rightarrow>
               if within_budget b then Inr (push state ''validate_adjust'' P_no_change)
               else
                 (let over = grand_total_est b - of_int (budget c);
                      max_paid = (if over > 500 then 1 else if over > 250 then 2 else 3)
                  in case st_itinerary state of
                       None \<Rightarrow> Inl (KeyError ''itinerary'')
                     | Some itin0 \<Rightarrow>
                         (let itin = adjust_itinerary_for_budget itin0 max_paid;
                              base = \<lparr>lodging = lodging b, food = food b,
                                      local_transport = local_transport b,
                                      flights_est = flights_est b, total_est = total_est b\<rparr>;
                              act = estimate_activity_cost itin;
                              grand = total_est base + act;
                              new_budget = \<lparr>lodging = lodging base, food = food base,
                                 local_transport = local_transport base,
                                 flights_est = flights_est base, total_est = total_est base,
                                 activities_est = act, grand_total_est = round2 grand,
                                 within_budget = (grand \<le> of_int (budget c))\<rparr>
                          in Inr (push (state\<lparr>st_itinerary := Some itin,
                                              st_budget := Some new_budget\<rparr>)
                                    ''validate_adjust'' (P_reduced max_paid new_budget))))))"

section \<open>The final plan and the graph (tools.py, graph.py)\<close>

text \<open>Decimal digits of a Python \<open>int\<close>, as an f-string prints it.\<close>

fun show_nat :: "nat \<Rightarrow> pystr" where
  "show_nat n =
     (if n < 10 then [48 + n]
      else show_nat (n div 10) @ [48 + n mod 10])"

definition show_int :: "int \<Rightarrow> pystr" where
  "show_int i = (if i < 0 then cps ''-'' @ show_nat (nat (- i)) else show_nat (nat i))"

text \<open>
  An f-string prints a float by its shortest decimal form. For an amount that is a
  multiple of \<open>0.01\<close> (below \<open>10^16\<close>) that form is the integer part, a point and one or
  two digits; \<open>fmt_cents\<close> prints these. The catalogue may hold figures of any form, so
  \<open>finalize\<close> takes the printing of a float as an argument.
\<close>

definition fmt_cents :: "rat \<Rightarrow> pystr" where
  "fmt_cents x =
     (let k = round_half_even (x * 100); a = nat \<bar>k\<bar>
      in (if k < 0 then (cps ''-'') else []) @ show_nat (a div 100) @ cps ''.''
         @ (if a mod 10 = 0 then show_nat (a mod 100 div 10)
            else [48 + a mod 100 div 10, 48 + a mod 10]))"

text \<open>The list has a short dash in its second entry, code point 8211.\<close>

definition build_checklist :: "constraints \<Rightarrow> destination \<Rightarrow> pystr list" where
  "build_checklist c dest =
     [cps ''Confirm travel dates and time off for '' @ show_int (days c) @ cps '' days'',
      cps ''Book flights to '' @ d_city dest @ cps '' (compare 2''
        @ [8211] @ cps ''3 options)'',
      cps ''Book lodging near a transit-friendly area'',
      cps ''Save key attractions to a map list'',
      cps ''Set a daily spend cap and track expenses'',
      cps ''Prepare documents (passport/ID, cards, insurance as needed)'',
      cps ''Build a backup plan (weather / closures / fatigue day)'']"

definition nl :: pystr where
  "nl = [10]"

definition day_lines :: "(rat \<Rightarrow> pystr) \<Rightarrow> day_plan \<Rightarrow> pystr list" where
  "day_lines fmt d =
     [cps ''**Day '' @ show_int (day d) @ cps ''**'']
     @ (if items d = [] then [cps ''- Free exploration / rest day'']
        else map (\<lambda>it. (cps ''- '') @ a_name it @ cps '' ('' @ tag it @ cps '', ~'' @ fmt (typical_hours it)
                         @ cps ''h, est $'' @ fmt (cost_est it) @ cps '')'') (items d))
     @ [[]]"

definition show_bool :: "bool \<Rightarrow> pystr" where
  "show_bool b = (if b then (cps ''True'') else cps ''False'')"

definition render_plan ::
    "(rat \<Rightarrow> pystr) \<Rightarrow> constraints \<Rightarrow> destination \<Rightarrow> budget_breakdown \<Rightarrow> itinerary
      \<Rightarrow> pystr list \<Rightarrow> pystr" where
  "render_plan fmt c dest b itin chk =
     (let lines = concat (map (day_lines fmt) (plan itin));
          interest_text = (if interests c \<noteq> [] then str_join (cps '', '') (interests c)
                           else cps ''general'');
          region_text = (case region c of None \<Rightarrow> cps ''any''
                         | Some r \<Rightarrow> if r = [] then (cps ''any'') else r)
      in (cps ''## Vacation Plan'') @ nl
         @ cps ''**Destination:** '' @ d_city dest @ cps '', '' @ d_country dest @ cps ''  '' @ nl
         @ cps ''**Region preference:** '' @ region_text @ cps ''  '' @ nl
         @ cps ''**Length:** '' @ show_int (days c) @ cps '' days | **Travelers:** ''
           @ show_int (travelers c) @ cps ''  '' @ nl
         @ cps ''**Pace:** '' @ pace c @ cps '' | **Interests:** '' @ interest_text @ cps ''  '' @ nl @ nl
         @ cps ''### Budget (estimates)'' @ nl
         @ cps ''- Flights: $'' @ fmt (flights_est b) @ nl
         @ cps ''- Lodging: $'' @ fmt (lodging b) @ nl
         @ cps ''- Food: $'' @ fmt (food b) @ nl
         @ cps ''- Local transport: $'' @ fmt (local_transport b) @ nl
         @ cps ''- Activities: $'' @ fmt (activities_est b) @ nl
         @ cps ''- **Grand total:** $'' @ fmt (grand_total_est b) @ cps '' (Budget: $''
           @ show_int (budget c) @ cps '')  '' @ nl
         @ cps ''- **Within budget:** '' @ show_bool (within_budget b) @ nl @ nl
         @ cps ''### Day-by-day itinerary'' @ nl
         @ str_join nl lines
         @ nl @ cps ''### Booking & prep checklist'' @ nl
         @ str_join nl (map (\<lambda>x. (cps ''- '') @ x) chk)
         @ nl)"

definition finalize :: "(rat \<Rightarrow> pystr) \<Rightarrow> agent_state \<Rightarrow> py_error + agent_state" where
  "finalize fmt state =
     (case st_constraints state of
        None \<Rightarrow> Inl (KeyError ''constraints'')
      | Some c \<Rightarrow>
          (case selected_destination state of
             None \<Rightarrow> Inl (KeyError ''selected_destination'')
           | Some dest_opt \<Rightarrow>
               (case st_budget state of
                  None \<Rightarrow> Inl (KeyError ''budget'')
                | Some b \<Rightarrow>
                    (case st_itinerary state of
                       None \<Rightarrow> Inl (KeyError ''itinerary'')
                     | Some itin \<Rightarrow>
                         (case dest_opt of
                            None \<Rightarrow> Inl (TypeError ''NoneType object is not subscriptable'')
                          | Some dest \<Rightarrow>
                              (let chk = build_checklist c dest;
                                   p = render_plan fmt c dest b itin chk
                               in Inr (push (state\<lparr>checklist := Some chk, final_plan := Some p\<rparr>)
                                         ''finalize'' (P_final (take 300 p @ cps ''...'')))))))))"

text \<open>
  \<open>build_graph\<close> chains the seven nodes by their edges, and \<open>invoke\<close> runs them from the
  state that holds the request only. An exception in a node ends the run: the result
  is then the node, the exception and the trace written so far.
\<close>

datatype failure = Failure string py_error "trace_entry list"

definition run_node ::
    "string \<Rightarrow> (agent_state \<Rightarrow> py_error + agent_state) \<Rightarrow> failure + agent_state
      \<Rightarrow> failure + agent_state" where
  "run_node node f r =
     (case r of
        Inl e \<Rightarrow> Inl e
      | Inr s \<Rightarrow> (case f s of Inl e \<Rightarrow> Inl (Failure node e (history s)) | Inr s' \<Rightarrow> Inr s'))"

definition initial_state :: "pystr \<Rightarrow> agent_state" where
  "initial_state request =
     \<lparr>user_request = Some request, st_constraints = None, trip_options = None,
      selected_destination = None, st_itinerary = None, st_budget = None,
      checklist = None, final_plan = None, history = []\<rparr>"

definition run ::
    "pydb \<Rightarrow> destination list \<Rightarrow> attraction list \<Rightarrow> (rat \<Rightarrow> pystr) \<Rightarrow> pystr
      \<Rightarrow> failure + agent_state" where
  "run u dests attrs fmt request =
     run_node ''finalize'' (finalize fmt)
       (run_node ''validate_adjust'' validate_and_adjust
         (run_node ''estimate_budget'' compute_budget
           (run_node ''build_itinerary'' (build_plan u attrs)
             (run_node ''choose_destination'' choose_destination
               (run_node ''propose_options'' (make_options u dests)
                 (run_node ''parse_request'' (parse_request u)
                   (Inr (initial_state request))))))))"

section \<open>Example data\<close>

text \<open>A small catalogue, for concrete runs of the functions above.\<close>

text \<open>
  The entries of Python's Unicode database that the examples meet: the ASCII code
  points, the next-line character (133) and the no-break space (160), which are white
  space, and the Arabic-Indic digits (1632 to 1641), which are decimal digits. The
  lower-case form is that of ASCII text.
\<close>

definition demo_db :: pydb where
  "demo_db =
     \<lparr>db_decimal = (\<lambda>c. if 48 \<le> c \<and> c \<le> 57 then Some (c - 48)
                         else if 1632 \<le> c \<and> c \<le> 1641 then Some (c - 1632) else None),
      db_space = (\<lambda>c. (9 \<le> c \<and> c \<le> 13) \<or> (28 \<le> c \<and> c \<le> 32) \<or> c = 133 \<or> c = 160),
      db_alnum = (\<lambda>c. (48 \<le> c \<and> c \<le> 57) \<or> (65 \<le> c \<and> c \<le> 90) \<or> (97 \<le> c \<and> c \<le> 122)
                       \<or> (1632 \<le> c \<and> c \<le> 1641)),
      db_lower = map (\<lambda>c. if 65 \<le> c \<and> c \<le> 90 then c + 32 else c)\<rparr>"

definition demo_rome :: destination where
  "demo_rome =
     \<lparr>d_city = cps ''Rome'', d_country = cps ''Italy'', d_region = cps ''Europe'',
      style_tags = cps ''food, museums,history'', avg_lodging_per_night = 120,
      avg_food_per_day = 45, avg_local_transport_per_day = 10\<rparr>"

definition demo_lisbon :: destination where
  "demo_lisbon =
     \<lparr>d_city = cps ''Lisbon'', d_country = cps ''Portugal'', d_region = cps ''europe'',
      style_tags = cps ''food,coastal'', avg_lodging_per_night = 90,
      avg_food_per_day = 35, avg_local_transport_per_day = 8\<rparr>"

definition demo_porto :: destination where
  "demo_porto =
     \<lparr>d_city = cps ''Porto'', d_country = cps ''Portugal'', d_region = cps ''europe'',
      style_tags = cps ''food,scenic'', avg_lodging_per_night = 80,
      avg_food_per_day = 39, avg_local_transport_per_day = 8\<rparr>"

text \<open>A destination whose rates are not whole numbers of cents.\<close>

definition demo_fine_rates :: destination where
  "demo_fine_rates =
     \<lparr>d_city = cps ''Faro'', d_country = cps ''Portugal'', d_region = cps ''europe'',
      style_tags = cps ''coastal'', avg_lodging_per_night = 49 / 10000,
      avg_food_per_day = 49 / 20000, avg_local_transport_per_day = 49 / 20000\<rparr>"

definition demo_attractions :: "attraction list" where
  "demo_attractions =
     [\<lparr>a_city = cps ''Lisbon'', a_name = cps ''Oceanarium'', tag = cps ''nature'',
       typical_hours = 3, cost_est = 22\<rparr>,
      \<lparr>a_city = cps ''lisbon'', a_name = cps ''Tram 28'', tag = cps ''scenic'',
       typical_hours = 2, cost_est = 3\<rparr>,
      \<lparr>a_city = cps ''Lisbon'', a_name = cps ''Alfama walk'', tag = cps ''walk'',
       typical_hours = 3, cost_est = 0\<rparr>,
      \<lparr>a_city = cps ''Lisbon'', a_name = cps ''Time Out Market'', tag = cps ''Food'',
       typical_hours = 2, cost_est = 25\<rparr>,
      \<lparr>a_city = cps ''Lisbon'', a_name = cps ''Tile museum'', tag = cps ''museums'',
       typical_hours = 2, cost_est = 8\<rparr>,
      \<lparr>a_city = cps ''Rome'', a_name = cps ''Colosseum'', tag = cps ''history'',
       typical_hours = 3, cost_est = 18\<rparr>]"

definition demo_options :: "trip_concept list" where
  "demo_options = propose_trip_concepts default_constraints [demo_rome, demo_lisbon, demo_porto]"

definition demo_state :: agent_state where
  "demo_state =
     (initial_state (cps ''a trip''))
       \<lparr>st_constraints := Some default_constraints, trip_options := Some demo_options\<rparr>"

text \<open>The itinerary for Lisbon, a state in which the plan is built, its budget breakdown
  (\<open>w\<close> is the flag) and the state after \<open>compute_budget\<close>, for a budget of \<open>limit\<close>.\<close>

definition demo_itinerary :: itinerary where
  "demo_itinerary = build_itinerary demo_db demo_attractions (cps ''Lisbon'') 5 [cps ''food'', cps ''museums''] (cps ''medium'')"

definition demo_planned :: "int \<Rightarrow> agent_state" where
  "demo_planned limit =
     (initial_state (cps ''a trip''))
       \<lparr>st_constraints := Some (default_constraints\<lparr>budget := limit\<rparr>),
        selected_destination := Some (Some demo_lisbon),
        st_itinerary := Some demo_itinerary\<rparr>"

definition demo_breakdown :: "bool \<Rightarrow> budget_breakdown" where
  "demo_breakdown w =
     \<lparr>lodging = 360, food = 350, local_transport = 80, flights_est = 900, total_est = 1690,
      activities_est = 58, grand_total_est = 1748, within_budget = w\<rparr>"

definition demo_budgeted :: "int \<Rightarrow> agent_state" where
  "demo_budgeted limit =
     push ((demo_planned limit)\<lparr>st_budget := Some (demo_breakdown (1748 \<le> limit))\<rparr>)
       ''estimate_budget'' (P_budget (demo_breakdown (1748 \<le> limit)))"

text \<open>A state before \<open>compute_budget\<close> whose destination has rates with more than two
  decimals (no attraction of the catalogue is in that city), and its breakdown.\<close>

definition demo_fine_planned :: agent_state where
  "demo_fine_planned =
     (initial_state (cps ''a trip''))
       \<lparr>st_constraints := Some default_constraints,
        selected_destination := Some (Some demo_fine_rates),
        st_itinerary := Some (build_itinerary demo_db demo_attractions (cps ''Faro'') 5
                                [cps ''food'', cps ''museums''] (cps ''medium''))\<rparr>"

definition demo_fine_breakdown :: budget_breakdown where
  "demo_fine_breakdown =
     \<lparr>lodging = 1 / 50, food = 1 / 50, local_transport = 1 / 50, flights_est = 900,
      total_est = 90007 / 100, activities_est = 0, grand_total_est = 90007 / 100,
      within_budget = True\<rparr>"


section \<open>Rounding lemmas\<close>



lemma rhe_of_int: "round_half_even (of_int k) = k"
  by (simp add: round_half_even_def)

lemma rhe_err: "\<bar>of_int (round_half_even x) - x\<bar> \<le> 1 / 2"
proof -
  have b: "of_int \<lfloor>x\<rfloor> \<le> x" "x < of_int \<lfloor>x\<rfloor> + 1" by linarith+
  consider "x - of_int \<lfloor>x\<rfloor> < 1 / 2" | "1 / 2 < x - of_int \<lfloor>x\<rfloor>"
    | "x - of_int \<lfloor>x\<rfloor> = 1 / 2" by linarith
  then show ?thesis
  proof cases
    case 1
    then have "round_half_even x = \<lfloor>x\<rfloor>" by (simp add: round_half_even_def Let_def)
    then show ?thesis using b 1 by simp
  next
    case 2
    then have "round_half_even x = \<lfloor>x\<rfloor> + 1" by (simp add: round_half_even_def Let_def)
    then show ?thesis using b 2 by simp
  next
    case 3
    then have "round_half_even x = \<lfloor>x\<rfloor> \<or> round_half_even x = \<lfloor>x\<rfloor> + 1"
      by (simp add: round_half_even_def Let_def)
    then show ?thesis using b 3 by auto
  qed
qed


lemma round2_cents: "round2 (of_int k / 100) = of_int k / 100"
  by (simp add: round2_def rhe_of_int)

lemma round2_is_cents: "\<exists>k. round2 x = of_int k / 100"
  unfolding round2_def by blast

lemma round2_idem: "round2 (round2 x) = round2 x"
proof -
  obtain k where k: "round2 x = of_int k / 100" using round2_is_cents by blast
  show ?thesis unfolding k by (rule round2_cents)
qed

lemma round2_add_cents: "round2 (round2 x + round2 y) = round2 x + round2 y"
proof -
  obtain k where k: "round2 x = of_int k / 100" using round2_is_cents by blast
  obtain l where l: "round2 y = of_int l / 100" using round2_is_cents by blast
  have s: "round2 x + round2 y = of_int (k + l) / 100"
    unfolding k l by (simp add: add_divide_distrib)
  show ?thesis unfolding s by (rule round2_cents)
qed

lemma round2_err: "\<bar>round2 x - x\<bar> \<le> 1 / 200"
proof -
  have "\<bar>of_int (round_half_even (x * 100)) - x * 100\<bar> \<le> 1 / 2" by (rule rhe_err)
  then show ?thesis unfolding round2_def by (simp add: abs_if field_simps split: if_splits)
qed

section \<open>The budget estimator\<close>

text \<open>
  Claim C6. \<open>estimate_budget\<close> returns lodging = nightly rate times (days - 1), food =
  daily food rate times days times travellers, local transport = daily transport rate
  times days times travellers, flights = flight estimate per person times travellers,
  and \<open>total_est\<close> = the sum of these four products, each of the five rounded to two
  decimals. A one-day trip has zero lodging.
\<close>

theorem estimate_budget_formulas:
  "lodging (estimate_budget dest n t f) = round2 (avg_lodging_per_night dest * of_int (n - 1))
   \<and> food (estimate_budget dest n t f) = round2 (avg_food_per_day dest * of_int n * of_int t)
   \<and> local_transport (estimate_budget dest n t f)
       = round2 (avg_local_transport_per_day dest * of_int n * of_int t)
   \<and> flights_est (estimate_budget dest n t f) = round2 (f * of_int t)
   \<and> total_est (estimate_budget dest n t f)
       = round2 (avg_lodging_per_night dest * of_int (n - 1)
                 + avg_food_per_day dest * of_int n * of_int t
                 + avg_local_transport_per_day dest * of_int n * of_int t
                 + f * of_int t)
   \<and> lodging (estimate_budget dest 1 t f) = 0"
  by (simp add: estimate_budget_def Let_def round2_def round_half_even_def)

section \<open>The itinerary builder: the day sequence\<close>

lemma length_build_days: "length (build_days ds bpd its idx acc) = length acc + length ds"
  by (induction ds arbitrary: idx acc) (auto split: prod.splits)

lemma map_day_build_days: "map day (build_days ds bpd its idx acc) = map day acc @ ds"
  by (induction ds arbitrary: idx acc) (auto split: prod.splits)

lemma build_days_nil:
  "build_days ds bpd [] idx acc = acc @ map (\<lambda>d. \<lparr>day = d, items = []\<rparr>) ds"
proof (induction ds arbitrary: idx acc)
  case Nil
  then show ?case by simp
next
  case (Cons d ds)
  have "fill_day bpd [] idx [] = ([], idx)" by (cases bpd) simp_all
  then show ?case using Cons by simp
qed

section \<open>The budget adjuster: what is kept\<close>

lemma adjust_items_acc:
  "adjust_items mp its seen acc
     = (acc @ fst (adjust_items mp its seen []), snd (adjust_items mp its seen []))"
proof (induction its arbitrary: seen acc)
  case Nil
  then show ?case by simp
next
  case (Cons it its)
  note ih = Cons.IH[of _ "acc @ [it]"] Cons.IH[of _ "[it]"] Cons.IH[of _ acc]
  show ?case
    by (simp add: ih)
qed

lemma adjust_items_Cons:
  "fst (adjust_items mp (it # its) seen []) =
     (if cost_est it \<le> 0 then it # fst (adjust_items mp its seen [])
      else if seen < mp then it # fst (adjust_items mp its (seen + 1) [])
      else fst (adjust_items mp its seen []))"
  "snd (adjust_items mp (it # its) seen []) =
     (if cost_est it \<le> 0 then snd (adjust_items mp its seen [])
      else if seen < mp then snd (adjust_items mp its (seen + 1) [])
      else snd (adjust_items mp its seen []))"
  using adjust_items_acc[of mp its _ "[it]"] by simp_all

lemma adjust_items_free:
  "filter free (fst (adjust_items mp its seen [])) = filter free its"
  by (induction its arbitrary: seen) (simp_all add: adjust_items_Cons free_def del: adjust_items.simps(2))

lemma adjust_items_subseq: "subseq (fst (adjust_items mp its seen [])) its"
  by (induction its arbitrary: seen)
     (auto simp add: adjust_items_Cons simp del: adjust_items.simps(2) intro: subseq_Cons')

lemma adjust_items_paid:
  "filter paid (fst (adjust_items mp its seen [])) = take (nat (mp - seen)) (filter paid its)"
proof (induction its arbitrary: seen)
  case Nil
  then show ?case by simp
next
  case (Cons it its)
  have a: "seen < mp \<Longrightarrow> nat (mp - seen) = Suc (nat (mp - (seen + 1)))" by simp
  have b: "\<not> seen < mp \<Longrightarrow> nat (mp - seen) = 0" by simp
  show ?case
  proof (cases "cost_est it \<le> 0")
    case True
    then show ?thesis by (simp add: adjust_items_Cons paid_def Cons.IH[unfolded paid_def] del: adjust_items.simps(2))
  next
    case False
    then have p: "paid it" by (simp add: paid_def)
    show ?thesis
    proof (cases "seen < mp")
      case True
      then show ?thesis using False p a[OF True] by (simp add: adjust_items_Cons Cons.IH del: adjust_items.simps(2))
    next
      case nlt: False
      then show ?thesis using False p b[OF nlt] Cons.IH[of seen] by (simp add: adjust_items_Cons del: adjust_items.simps(2))
    qed
  qed
qed

lemma adjust_items_seen:
  "snd (adjust_items mp its seen [])
     = seen + int (length (filter paid (fst (adjust_items mp its seen []))))"
  by (induction its arbitrary: seen) (simp_all add: adjust_items_Cons paid_def del: adjust_items.simps(2))

lemma adjust_days_Cons:
  "fst (adjust_days mp (d # ds) seen)
     = d\<lparr>items := fst (adjust_items mp (items d) seen [])\<rparr>
       # fst (adjust_days mp ds (snd (adjust_items mp (items d) seen [])))"
  "snd (adjust_days mp (d # ds) seen)
     = snd (adjust_days mp ds (snd (adjust_items mp (items d) seen [])))"
  by (simp_all split: prod.splits)

lemma adjust_days_day: "map day (fst (adjust_days mp ds seen)) = map day ds"
  by (induction ds arbitrary: seen) (simp_all add: adjust_days_Cons del: adjust_days.simps(2))

lemma adjust_days_free:
  "map (\<lambda>d. filter free (items d)) (fst (adjust_days mp ds seen)) = map (\<lambda>d. filter free (items d)) ds"
  by (induction ds arbitrary: seen)
     (simp_all add: adjust_days_Cons adjust_items_free del: adjust_days.simps(2))

lemma adjust_days_subseq:
  "list_all2 (\<lambda>d' d. subseq (items d') (items d)) (fst (adjust_days mp ds seen)) ds"
  by (induction ds arbitrary: seen)
     (simp_all add: adjust_days_Cons adjust_items_subseq del: adjust_days.simps(2))

lemma adjust_days_paid:
  "concat (map (\<lambda>d. filter paid (items d)) (fst (adjust_days mp ds seen)))
     = take (nat (mp - seen)) (concat (map (\<lambda>d. filter paid (items d)) ds))"
proof (induction ds arbitrary: seen)
  case Nil
  then show ?case by simp
next
  case (Cons d ds)
  let ?P = "filter paid (items d)"
  let ?s = "snd (adjust_items mp (items d) seen [])"
  have s: "?s = seen + int (min (nat (mp - seen)) (length ?P))"
    by (simp add: adjust_items_seen adjust_items_paid)
  have n: "nat (mp - ?s) = nat (mp - seen) - length ?P"
    unfolding s by simp
  have "concat (map (\<lambda>d. filter paid (items d)) (fst (adjust_days mp ds ?s)))
          = take (nat (mp - seen) - length ?P)
              (concat (map (\<lambda>d. filter paid (items d)) ds))"
    using Cons.IH[of ?s] n by simp
  then show ?case
    by (simp add: adjust_days_Cons adjust_items_paid del: adjust_days.simps(2))
qed


text \<open>
  Claim C8. \<open>adjust_itinerary_for_budget\<close> keeps the days and their numbers. In every
  day the free items (\<open>cost_est \<le> 0\<close>) that remain are the free items the day had, in
  the same order, and the items of the adjusted day are a subsequence of the items of
  the original day. Over the whole itinerary, the paid items (\<open>cost_est > 0\<close>) that
  remain are the first \<open>N\<close> paid items in the order of the days and of the items within a
  day: the counter runs across days, and a paid item met after \<open>N\<close> paid items were kept
  is dropped, in whichever day it stands. So at most \<open>N\<close> paid items remain (none when
  \<open>N\<close> is below 1).
\<close>

theorem adjust_keeps_free_and_first_paid:
  "map day (plan (adjust_itinerary_for_budget itin N)) = map day (plan itin)
   \<and> map (\<lambda>d. filter free (items d)) (plan (adjust_itinerary_for_budget itin N))
       = map (\<lambda>d. filter free (items d)) (plan itin)
   \<and> list_all2 (\<lambda>d' d. subseq (items d') (items d))
        (plan (adjust_itinerary_for_budget itin N)) (plan itin)
   \<and> concat (map (\<lambda>d. filter paid (items d)) (plan (adjust_itinerary_for_budget itin N)))
       = take (nat N) (concat (map (\<lambda>d. filter paid (items d)) (plan itin)))
   \<and> length (concat (map (\<lambda>d. filter paid (items d)) (plan (adjust_itinerary_for_budget itin N))))
       \<le> nat N"
  using adjust_days_day[of N "plan itin" 0] adjust_days_free[of N "plan itin" 0]
        adjust_days_subseq[of N "plan itin" 0] adjust_days_paid[of N "plan itin" 0]
  by (simp add: adjust_itinerary_for_budget_def)

lemma sort_rows_nil: "sort_rows u ints [] = []"
  by (simp add: sort_rows_def)

text \<open>
  Claim C5. For a positive day count, the plan \<open>build_itinerary\<close> returns has exactly
  that many days, numbered from 1 upwards, and \<open>adjust_itinerary_for_budget\<close> keeps the
  number of days. When the catalogue has no attraction of the city, every day of the
  plan has the empty item list; the call returns a plan all the same.
\<close>

theorem build_itinerary_days:
  assumes "0 < n"
  shows "int (length (plan (build_itinerary u attrs c n ints p))) = n
     \<and> int (length (plan (adjust_itinerary_for_budget (build_itinerary u attrs c n ints p) N))) = n
     \<and> map day (plan (build_itinerary u attrs c n ints p)) = [1..n]
     \<and> (city_rows u attrs c = [] \<longrightarrow>
          plan (build_itinerary u attrs c n ints p) = map (\<lambda>d. \<lparr>day = d, items = []\<rparr>) [1..n])"
proof -
  have l: "length (plan (build_itinerary u attrs c n ints p)) = nat n"
    by (simp add: build_itinerary_def length_build_days)
  have "length (map day (plan (adjust_itinerary_for_budget (build_itinerary u attrs c n ints p) N)))
          = length (map day (plan (build_itinerary u attrs c n ints p)))"
    using adjust_days_day[of N "plan (build_itinerary u attrs c n ints p)" 0]
    by (simp add: adjust_itinerary_for_budget_def)
  then have a: "length (plan (adjust_itinerary_for_budget (build_itinerary u attrs c n ints p) N)) = nat n"
    using l by simp
  have d: "map day (plan (build_itinerary u attrs c n ints p)) = [1..n]"
    by (simp add: build_itinerary_def map_day_build_days)
  have e: "city_rows u attrs c = [] \<longrightarrow>
          plan (build_itinerary u attrs c n ints p) = map (\<lambda>d. \<lparr>day = d, items = []\<rparr>) [1..n]"
    by (simp add: build_itinerary_def sort_rows_nil build_days_nil)
  show ?thesis using assms l a d e by simp
qed

theorem build_itinerary_days_witness:
  "(0::int) < 3
   \<and> length (plan (build_itinerary demo_db [] (cps ''Lisbon'') 3 [cps ''food''] (cps ''fast''))) = 3
   \<and> length (plan (adjust_itinerary_for_budget
                      (build_itinerary demo_db [] (cps ''Lisbon'') 3 [cps ''food''] (cps ''fast'')) 2)) = 3
   \<and> plan (build_itinerary demo_db [] (cps ''Lisbon'') 3 [cps ''food''] (cps ''fast''))
       = [\<lparr>day = 1, items = []\<rparr>, \<lparr>day = 2, items = []\<rparr>, \<lparr>day = 3, items = []\<rparr>]"
  using build_itinerary_days[of 3 demo_db "[]" "cps ''Lisbon''" "[cps ''food'']" "cps ''fast''" 2]
  by (simp add: city_rows_def upto.simps)

section \<open>Destination selection\<close>

lemma choose_loop_Some:
  "(choose_loop c opts (Some d0) (Some t0) = (Some d0, Some t0)
      \<and> (\<forall>x\<in>set opts. t0 \<le> rough_total c x))
   \<or> (\<exists>pre opt post. opts = pre @ opt # post
        \<and> choose_loop c opts (Some d0) (Some t0)
            = (Some (concept_destination opt), Some (rough_total c opt))
        \<and> rough_total c opt < t0
        \<and> (\<forall>x\<in>set pre. rough_total c opt < rough_total c x)
        \<and> (\<forall>x\<in>set post. rough_total c opt \<le> rough_total c x))"
proof (induction opts arbitrary: d0 t0)
  case Nil
  then show ?case by simp
next
  case (Cons o1 os)
  show ?case
  proof (cases "rough_total c o1 < t0")
    case True
    then have step: "choose_loop c (o1 # os) (Some d0) (Some t0)
        = choose_loop c os (Some (concept_destination o1)) (Some (rough_total c o1))"
      by (simp add: Let_def)
    from Cons.IH[of "concept_destination o1" "rough_total c o1"] show ?thesis
    proof (elim disjE exE conjE)
      assume a: "choose_loop c os (Some (concept_destination o1)) (Some (rough_total c o1))
                  = (Some (concept_destination o1), Some (rough_total c o1))"
        and b: "\<forall>x\<in>set os. rough_total c o1 \<le> rough_total c x"
      have "o1 # os = [] @ o1 # os" by simp
      then show ?thesis using a b True step by (intro disjI2 exI[of _ "[]"] exI[of _ o1] exI[of _ os]) simp
    next
      fix pre opt post
      assume a: "os = pre @ opt # post"
        and b: "choose_loop c os (Some (concept_destination o1)) (Some (rough_total c o1))
                  = (Some (concept_destination opt), Some (rough_total c opt))"
        and lt: "rough_total c opt < rough_total c o1"
        and p: "\<forall>x\<in>set pre. rough_total c opt < rough_total c x"
        and q: "\<forall>x\<in>set post. rough_total c opt \<le> rough_total c x"
      show ?thesis using a b lt p q True step
        by (intro disjI2 exI[of _ "o1 # pre"] exI[of _ opt] exI[of _ post]) auto
    qed
  next
    case False
    then have step: "choose_loop c (o1 # os) (Some d0) (Some t0)
        = choose_loop c os (Some d0) (Some t0)"
      by (simp add: Let_def)
    from Cons.IH[of d0 t0] show ?thesis
    proof (elim disjE exE conjE)
      assume a: "choose_loop c os (Some d0) (Some t0) = (Some d0, Some t0)"
        and b: "\<forall>x\<in>set os. t0 \<le> rough_total c x"
      show ?thesis using a b False step by (intro disjI1) auto
    next
      fix pre opt post
      assume a: "os = pre @ opt # post"
        and b: "choose_loop c os (Some d0) (Some t0)
                  = (Some (concept_destination opt), Some (rough_total c opt))"
        and lt: "rough_total c opt < t0"
        and p: "\<forall>x\<in>set pre. rough_total c opt < rough_total c x"
        and q: "\<forall>x\<in>set post. rough_total c opt \<le> rough_total c x"
      show ?thesis using a b lt p q False step
        by (intro disjI2 exI[of _ "o1 # pre"] exI[of _ opt] exI[of _ post]) auto
    qed
  qed
qed

lemma choose_loop_first:
  assumes "opts \<noteq> []"
  shows "\<exists>pre opt post. opts = pre @ opt # post
        \<and> choose_loop c opts None None
            = (Some (concept_destination opt), Some (rough_total c opt))
        \<and> (\<forall>x\<in>set pre. rough_total c opt < rough_total c x)
        \<and> (\<forall>x\<in>set post. rough_total c opt \<le> rough_total c x)"
proof -
  obtain o1 os where o: "opts = o1 # os" using assms by (cases opts) auto
  have step: "choose_loop c opts None None
        = choose_loop c os (Some (concept_destination o1)) (Some (rough_total c o1))"
    by (simp add: o Let_def)
  from choose_loop_Some[of c os "concept_destination o1" "rough_total c o1"] show ?thesis
  proof (elim disjE exE conjE)
    assume a: "choose_loop c os (Some (concept_destination o1)) (Some (rough_total c o1))
                  = (Some (concept_destination o1), Some (rough_total c o1))"
      and b: "\<forall>x\<in>set os. rough_total c o1 \<le> rough_total c x"
    show ?thesis using a b step o by (intro exI[of _ "[]"] exI[of _ o1] exI[of _ os]) simp
  next
    fix pre opt post
    assume a: "os = pre @ opt # post"
      and b: "choose_loop c os (Some (concept_destination o1)) (Some (rough_total c o1))
                  = (Some (concept_destination opt), Some (rough_total c opt))"
      and lt: "rough_total c opt < rough_total c o1"
      and p: "\<forall>x\<in>set pre. rough_total c opt < rough_total c x"
      and q: "\<forall>x\<in>set post. rough_total c opt \<le> rough_total c x"
    show ?thesis using a b lt p q step o
      by (intro exI[of _ "o1 # pre"] exI[of _ opt] exI[of _ post]) auto
  qed
qed

text \<open>
  Claim C3. When the list of proposed concepts is not empty, \<open>choose_destination\<close>
  selects the destination of a concept \<open>opt\<close> of the list such that every concept listed
  before \<open>opt\<close> has a strictly higher rough total and every concept listed after it has
  a rough total that is not lower: the lowest rough total wins, and among equal totals
  the concept listed first. The rough total is the \<open>total_est\<close> of the budget estimate,
  which leaves activities out.
\<close>

theorem choose_destination_lowest:
  assumes "st_constraints s = Some c" and "trip_options s = Some opts" and "opts \<noteq> []"
  shows "\<exists>pre opt post. opts = pre @ opt # post
        \<and> choose_destination s
            = Inr (push (s\<lparr>selected_destination := Some (Some (concept_destination opt))\<rparr>)
                     ''choose_destination''
                     (P_selected (Some (concept_destination opt)) (Some (rough_total c opt))))
        \<and> rough_total c opt
            = total_est (estimate_budget (concept_destination opt) (days c) (travelers c)
                           (of_int (flight_est_per_person c)))
        \<and> (\<forall>x\<in>set pre. rough_total c opt < rough_total c x)
        \<and> (\<forall>x\<in>set post. rough_total c opt \<le> rough_total c x)"
proof -
  obtain pre opt post where d: "opts = pre @ opt # post"
    and l: "choose_loop c opts None None
            = (Some (concept_destination opt), Some (rough_total c opt))"
    and p: "\<forall>x\<in>set pre. rough_total c opt < rough_total c x"
    and q: "\<forall>x\<in>set post. rough_total c opt \<le> rough_total c x"
    using choose_loop_first[OF assms(3), of c] by blast
  have "choose_destination s
            = Inr (push (s\<lparr>selected_destination := Some (Some (concept_destination opt))\<rparr>)
                     ''choose_destination''
                     (P_selected (Some (concept_destination opt)) (Some (rough_total c opt))))"
    using assms(1,2) l by (simp add: choose_destination_def)
  then show ?thesis using d p q by (auto simp add: rough_total_def)
qed

lemma demo_rough:
  "map (rough_total default_constraints) demo_options = [1930, 1690, 1690]"
  by code_simp

text \<open>On the example the rough totals are 1930 for Rome and 1690 for both Lisbon and
  Porto; Lisbon, listed before Porto, is selected.\<close>

lemma demo_choice:
  "choose_destination demo_state
     = Inr (push (demo_state\<lparr>selected_destination := Some (Some demo_lisbon)\<rparr>)
              ''choose_destination'' (P_selected (Some demo_lisbon) (Some 1690)))"
  by code_simp

theorem choose_destination_lowest_witness:
  "st_constraints demo_state = Some default_constraints
   \<and> trip_options demo_state = Some demo_options
   \<and> demo_options \<noteq> []
   \<and> choose_destination demo_state
       = Inr (push (demo_state\<lparr>selected_destination := Some (Some demo_lisbon)\<rparr>)
                ''choose_destination'' (P_selected (Some demo_lisbon) (Some 1690)))
   \<and> (\<exists>pre opt post. demo_options = pre @ opt # post
        \<and> choose_destination demo_state
            = Inr (push (demo_state\<lparr>selected_destination := Some (Some (concept_destination opt))\<rparr>)
                     ''choose_destination''
                     (P_selected (Some (concept_destination opt))
                        (Some (rough_total default_constraints opt))))
        \<and> rough_total default_constraints opt
            = total_est (estimate_budget (concept_destination opt) (days default_constraints)
                           (travelers default_constraints)
                           (of_int (flight_est_per_person default_constraints)))
        \<and> (\<forall>x\<in>set pre. rough_total default_constraints opt < rough_total default_constraints x)
        \<and> (\<forall>x\<in>set post. rough_total default_constraints opt \<le> rough_total default_constraints x))"
proof -
  have a: "st_constraints demo_state = Some default_constraints"
    by (simp add: demo_state_def initial_state_def)
  have b: "trip_options demo_state = Some demo_options"
    by (simp add: demo_state_def initial_state_def)
  have c: "demo_options \<noteq> []"
    by (simp add: demo_options_def propose_trip_concepts_def)
  show ?thesis using a b c choose_destination_lowest[OF a b c] demo_choice by blast
qed

section \<open>The budget stages\<close>

lemma push_fields [simp]:
  "st_constraints (push s n p) = st_constraints s"
  "st_budget (push s n p) = st_budget s"
  "st_itinerary (push s n p) = st_itinerary s"
  "selected_destination (push s n p) = selected_destination s"
  "trip_options (push s n p) = trip_options s"
  "history (push s n p) = history s @ [(n, p)]"
  by (simp_all add: push_def)

lemma compute_budget_result:
  assumes "st_constraints s = Some c" and "selected_destination s = Some (Some dest)"
    and "st_itinerary s = Some itin"
  shows "\<exists>b. compute_budget s
               = Inr (push (s\<lparr>st_budget := Some b\<rparr>) ''estimate_budget'' (P_budget b))
     \<and> lodging b = round2 (avg_lodging_per_night dest * of_int (days c - 1))
     \<and> food b = round2 (avg_food_per_day dest * of_int (days c) * of_int (travelers c))
     \<and> local_transport b
         = round2 (avg_local_transport_per_day dest * of_int (days c) * of_int (travelers c))
     \<and> flights_est b = round2 (of_int (flight_est_per_person c) * of_int (travelers c))
     \<and> total_est b
         = round2 (avg_lodging_per_night dest * of_int (days c - 1)
                   + avg_food_per_day dest * of_int (days c) * of_int (travelers c)
                   + avg_local_transport_per_day dest * of_int (days c) * of_int (travelers c)
                   + of_int (flight_est_per_person c) * of_int (travelers c))
     \<and> activities_est b = estimate_activity_cost itin
     \<and> grand_total_est b = total_est b + activities_est b
     \<and> within_budget b = (total_est b + activities_est b \<le> of_int (budget c))"
proof -
  have r: "round2 (round2 x + estimate_activity_cost itin) = round2 x + estimate_activity_cost itin"
    for x
    unfolding estimate_activity_cost_def by (rule round2_add_cents)
  define base where "base = estimate_budget dest (days c) (travelers c)
                             (of_int (flight_est_per_person c))"
  define b where "b = \<lparr>lodging = lodging base, food = food base,
      local_transport = local_transport base, flights_est = flights_est base,
      total_est = total_est base, activities_est = estimate_activity_cost itin,
      grand_total_est = round2 (total_est base + estimate_activity_cost itin),
      within_budget = (total_est base + estimate_activity_cost itin \<le> of_int (budget c))\<rparr>"
  have run: "compute_budget s
               = Inr (push (s\<lparr>st_budget := Some b\<rparr>) ''estimate_budget'' (P_budget b))"
    using assms by (simp add: compute_budget_def Let_def b_def base_def)
  have flds: "lodging b = round2 (avg_lodging_per_night dest * of_int (days c - 1))"
    "food b = round2 (avg_food_per_day dest * of_int (days c) * of_int (travelers c))"
    "local_transport b
         = round2 (avg_local_transport_per_day dest * of_int (days c) * of_int (travelers c))"
    "flights_est b = round2 (of_int (flight_est_per_person c) * of_int (travelers c))"
    "total_est b
         = round2 (avg_lodging_per_night dest * of_int (days c - 1)
                   + avg_food_per_day dest * of_int (days c) * of_int (travelers c)
                   + avg_local_transport_per_day dest * of_int (days c) * of_int (travelers c)
                   + of_int (flight_est_per_person c) * of_int (travelers c))"
    "activities_est b = estimate_activity_cost itin"
    by (simp_all add: b_def base_def estimate_budget_def Let_def)
  have g: "grand_total_est b = total_est b + activities_est b"
    unfolding flds by (simp add: b_def base_def estimate_budget_def Let_def r)
  have w: "within_budget b = (total_est b + activities_est b \<le> of_int (budget c))"
    by (simp add: b_def)
  show ?thesis using run flds g w by blast
qed

lemma validate_no_change:
  assumes "st_constraints s = Some c" and "st_budget s = Some b" and "within_budget b"
  shows "validate_and_adjust s = Inr (push s ''validate_adjust'' P_no_change)"
  using assms by (simp add: validate_and_adjust_def)

lemma validate_reduced:
  assumes "st_constraints s = Some c" and "st_budget s = Some b" and "st_itinerary s = Some itin"
    and "\<not> within_budget b"
    and "cap = (if grand_total_est b - of_int (budget c) > 500 then 1
                else if grand_total_est b - of_int (budget c) > 250 then 2 else 3)"
  shows "\<exists>nb. validate_and_adjust s
               = Inr (push (s\<lparr>st_itinerary := Some (adjust_itinerary_for_budget itin cap),
                              st_budget := Some nb\<rparr>)
                        ''validate_adjust'' (P_reduced cap nb))
     \<and> lodging nb = lodging b \<and> food nb = food b \<and> local_transport nb = local_transport b
     \<and> flights_est nb = flights_est b \<and> total_est nb = total_est b
     \<and> activities_est nb = estimate_activity_cost (adjust_itinerary_for_budget itin cap)
     \<and> grand_total_est nb = round2 (total_est b + activities_est nb)
     \<and> within_budget nb = (total_est b + activities_est nb \<le> of_int (budget c))"
proof -
  define itin' where "itin' = adjust_itinerary_for_budget itin cap"
  define nb where "nb = \<lparr>lodging = lodging b, food = food b,
      local_transport = local_transport b, flights_est = flights_est b,
      total_est = total_est b, activities_est = estimate_activity_cost itin',
      grand_total_est = round2 (total_est b + estimate_activity_cost itin'),
      within_budget = (total_est b + estimate_activity_cost itin' \<le> of_int (budget c))\<rparr>"
  have run: "validate_and_adjust s
               = Inr (push (s\<lparr>st_itinerary := Some itin', st_budget := Some nb\<rparr>)
                        ''validate_adjust'' (P_reduced cap nb))"
    using assms by (simp add: validate_and_adjust_def Let_def nb_def itin'_def)
  show ?thesis
    by (rule exI[of _ nb]) (simp add: run[unfolded itin'_def] nb_def itin'_def)
qed







lemma is_cents_iff: "is_cents x \<longleftrightarrow> (\<exists>k. x = of_int k / 100)"
proof
  assume "is_cents x"
  then have "of_int \<lfloor>x * 100\<rfloor> = x * 100" unfolding is_cents_def .
  then have "x = of_int \<lfloor>x * 100\<rfloor> / 100" by linarith
  then show "\<exists>k. x = of_int k / 100" ..
next
  assume "\<exists>k. x = of_int k / 100"
  then obtain k where "x = of_int k / 100" ..
  then show "is_cents x" by (simp add: is_cents_def)
qed

lemma is_cents_round2: "is_cents x \<Longrightarrow> round2 x = x"
proof -
  assume "is_cents x"
  then obtain k where k: "x = of_int k / 100" unfolding is_cents_iff ..
  show ?thesis unfolding k by (rule round2_cents)
qed

lemma is_cents_add: "is_cents x \<Longrightarrow> is_cents y \<Longrightarrow> is_cents (x + y)"
proof -
  assume "is_cents x" "is_cents y"
  then obtain k l where "x = of_int k / 100" "y = of_int l / 100"
    by (auto simp add: is_cents_iff)
  then have "x + y = of_int (k + l) / 100" by (simp add: add_divide_distrib)
  then show ?thesis unfolding is_cents_iff ..
qed

lemma is_cents_mult: "is_cents x \<Longrightarrow> is_cents (x * of_int n)"
proof -
  assume "is_cents x"
  then obtain k where "x = of_int k / 100" by (auto simp add: is_cents_iff)
  then have "x * of_int n = of_int (k * n) / 100" by simp
  then show ?thesis unfolding is_cents_iff ..
qed

lemma is_cents_of_int: "is_cents (of_int n)"
  by (simp add: is_cents_def)

lemma sum_of_rounded:
  assumes "lo = round2 L" and "fo = round2 F" and "tr = round2 T" and "fl = round2 (of_int X)"
    and "tot = round2 (L + F + T + of_int X)"
  shows "\<bar>tot + a - (lo + fo + tr + fl + a)\<bar> \<le> 1 / 50"
proof -
  have x: "fl = of_int X" using assms(4) is_cents_round2[OF is_cents_of_int] by simp
  have "\<bar>lo - L\<bar> \<le> 1 / 200" "\<bar>fo - F\<bar> \<le> 1 / 200" "\<bar>tr - T\<bar> \<le> 1 / 200"
    "\<bar>tot - (L + F + T + of_int X)\<bar> \<le> 1 / 200"
    unfolding assms by (rule round2_err)+
  then show ?thesis using x by linarith
qed

lemma sum_of_cents:
  assumes "is_cents pl" and "is_cents pf" and "is_cents pt"
  shows "round2 (pl * of_int n1 + pf * of_int n * of_int t + pt * of_int n * of_int t
                 + of_int x * of_int t)
         = round2 (pl * of_int n1) + round2 (pf * of_int n * of_int t)
           + round2 (pt * of_int n * of_int t) + round2 (of_int x * of_int t)"
proof -
  have a: "is_cents (pl * of_int n1)" using assms(1) by (rule is_cents_mult)
  have b: "is_cents (pf * of_int n * of_int t)" using assms(2) by (intro is_cents_mult)
  have c: "is_cents (pt * of_int n * of_int t)" using assms(3) by (intro is_cents_mult)
  have d: "is_cents (of_int x * of_int t)" by (intro is_cents_mult is_cents_of_int)
  have "is_cents (pl * of_int n1 + pf * of_int n * of_int t + pt * of_int n * of_int t
                 + of_int x * of_int t)"
    using a b c d by (intro is_cents_add)
  then show ?thesis using a b c d by (simp add: is_cents_round2)
qed

lemma demo_planned_fields:
  "st_constraints (demo_planned limit) = Some (default_constraints\<lparr>budget := limit\<rparr>)"
  "selected_destination (demo_planned limit) = Some (Some demo_lisbon)"
  "st_itinerary (demo_planned limit) = Some demo_itinerary"
  by (simp_all add: demo_planned_def initial_state_def)

lemma demo_plan: "map (map cost_est \<circ> items) (plan demo_itinerary) = [[8, 25, 0], [3, 22], [], [], []]"
  by code_simp


lemma demo_budgeted_fields:
  "st_constraints (demo_budgeted limit) = Some (default_constraints\<lparr>budget := limit\<rparr>)"
  "st_budget (demo_budgeted limit) = Some (demo_breakdown (1748 \<le> limit))"
  "st_itinerary (demo_budgeted limit) = Some demo_itinerary"
  by (simp_all add: demo_budgeted_def demo_planned_fields)


lemma demo_cents:
  "is_cents (avg_lodging_per_night demo_lisbon)" "is_cents (avg_food_per_day demo_lisbon)"
  "is_cents (avg_local_transport_per_day demo_lisbon)"
  by (simp_all add: is_cents_def demo_lisbon_def)









text \<open>
  Claim C4, as the code has it. For the breakdown of \<open>compute_budget\<close> and for the one
  after \<open>validate_and_adjust\<close>: \<open>grand_total_est\<close> is \<open>total_est\<close> plus
  \<open>activities_est\<close>, and it differs from lodging + food + local transport + flights +
  activities by at most \<open>0.02\<close>, the rounding of the parts: \<open>total_est\<close> rounds the sum of
  the unrounded parts, and the parts are rounded one by one. When the three rates of the
  destination are whole numbers of cents, the two are equal. (That they are equal for
  every breakdown, as the claim has it, fails: see the counterexample below.)
\<close>

theorem grand_total_is_sum:
  assumes "st_constraints s = Some c" and "selected_destination s = Some (Some dest)"
    and "st_itinerary s = Some itin"
  shows "\<exists>s1 b1 s2 b2.
       compute_budget s = Inr s1 \<and> st_budget s1 = Some b1
     \<and> validate_and_adjust s1 = Inr s2 \<and> st_budget s2 = Some b2
     \<and> grand_total_est b1 = total_est b1 + activities_est b1
     \<and> grand_total_est b2 = total_est b2 + activities_est b2
     \<and> \<bar>grand_total_est b1 - (lodging b1 + food b1 + local_transport b1 + flights_est b1
                               + activities_est b1)\<bar> \<le> 1 / 50
     \<and> \<bar>grand_total_est b2 - (lodging b2 + food b2 + local_transport b2 + flights_est b2
                               + activities_est b2)\<bar> \<le> 1 / 50
     \<and> (is_cents (avg_lodging_per_night dest) \<and> is_cents (avg_food_per_day dest)
          \<and> is_cents (avg_local_transport_per_day dest) \<longrightarrow>
          grand_total_est b1 = lodging b1 + food b1 + local_transport b1 + flights_est b1
                               + activities_est b1
        \<and> grand_total_est b2 = lodging b2 + food b2 + local_transport b2 + flights_est b2
                               + activities_est b2)"
proof -
  obtain b1 where run1: "compute_budget s
               = Inr (push (s\<lparr>st_budget := Some b1\<rparr>) ''estimate_budget'' (P_budget b1))"
    and l1: "lodging b1 = round2 (avg_lodging_per_night dest * of_int (days c - 1))"
    and f1: "food b1 = round2 (avg_food_per_day dest * of_int (days c) * of_int (travelers c))"
    and p1: "local_transport b1
         = round2 (avg_local_transport_per_day dest * of_int (days c) * of_int (travelers c))"
    and x1: "flights_est b1 = round2 (of_int (flight_est_per_person c) * of_int (travelers c))"
    and t1: "total_est b1 = round2 (avg_lodging_per_night dest * of_int (days c - 1)
                   + avg_food_per_day dest * of_int (days c) * of_int (travelers c)
                   + avg_local_transport_per_day dest * of_int (days c) * of_int (travelers c)
                   + of_int (flight_est_per_person c) * of_int (travelers c))"
    and g1: "grand_total_est b1 = total_est b1 + activities_est b1"
    and w1: "within_budget b1 = (total_est b1 + activities_est b1 \<le> of_int (budget c))"
    using compute_budget_result[OF assms] by blast
  let ?s1 = "push (s\<lparr>st_budget := Some b1\<rparr>) ''estimate_budget'' (P_budget b1)"
  have c1: "st_constraints ?s1 = Some c" and sb1: "st_budget ?s1 = Some b1"
    and i1: "st_itinerary ?s1 = Some itin"
    using assms by simp_all
  have x1': "flights_est b1 = round2 (of_int (flight_est_per_person c * travelers c))"
    using x1 by simp
  have t1': "total_est b1 = round2 (avg_lodging_per_night dest * of_int (days c - 1)
                   + avg_food_per_day dest * of_int (days c) * of_int (travelers c)
                   + avg_local_transport_per_day dest * of_int (days c) * of_int (travelers c)
                   + of_int (flight_est_per_person c * travelers c))"
    using t1 by simp
  have tol: "\<bar>total_est b1 + a - (lodging b1 + food b1 + local_transport b1 + flights_est b1 + a)\<bar>
               \<le> 1 / 50" for a
    by (rule sum_of_rounded[OF l1 f1 p1 x1' t1'])
  have exact: "total_est b1 = lodging b1 + food b1 + local_transport b1 + flights_est b1"
    if "is_cents (avg_lodging_per_night dest) \<and> is_cents (avg_food_per_day dest)
          \<and> is_cents (avg_local_transport_per_day dest)"
    unfolding t1 l1 f1 p1 x1 using that by (intro sum_of_cents) simp_all
  obtain s2 b2 where run2: "validate_and_adjust ?s1 = Inr s2" and sb2: "st_budget s2 = Some b2"
    and same: "lodging b2 = lodging b1" "food b2 = food b1"
      "local_transport b2 = local_transport b1" "flights_est b2 = flights_est b1"
      "total_est b2 = total_est b1"
    and g2: "grand_total_est b2 = total_est b2 + activities_est b2"
  proof (cases "within_budget b1")
    case True
    have "validate_and_adjust ?s1 = Inr (push ?s1 ''validate_adjust'' P_no_change)"
      using validate_no_change[OF c1 sb1 True] .
    moreover have "st_budget (push ?s1 ''validate_adjust'' P_no_change) = Some b1" by simp
    ultimately show ?thesis using that g1 by blast
  next
    case False
    obtain nb s2 where r: "validate_and_adjust ?s1 = Inr s2" "st_budget s2 = Some nb"
      and sm: "lodging nb = lodging b1" "food nb = food b1"
        "local_transport nb = local_transport b1" "flights_est nb = flights_est b1"
        "total_est nb = total_est b1"
      and g: "grand_total_est nb = round2 (total_est b1 + activities_est nb)"
      and a2: "\<exists>it. activities_est nb = estimate_activity_cost it"
      using validate_reduced[OF c1 sb1 i1 False refl] by fastforce
    obtain it where a: "activities_est nb = estimate_activity_cost it" using a2 by blast
    have "round2 (total_est b1 + activities_est nb) = total_est b1 + activities_est nb"
      unfolding t1 a estimate_activity_cost_def by (rule round2_add_cents)
    then have "grand_total_est nb = total_est nb + activities_est nb" using g sm by simp
    then show ?thesis using that r sm by blast
  qed
  have "grand_total_est b1 = total_est b1 + activities_est b1" by (rule g1)
  moreover have "\<bar>grand_total_est b1 - (lodging b1 + food b1 + local_transport b1
        + flights_est b1 + activities_est b1)\<bar> \<le> 1 / 50"
    unfolding g1 by (rule tol)
  moreover have "\<bar>grand_total_est b2 - (lodging b2 + food b2 + local_transport b2
        + flights_est b2 + activities_est b2)\<bar> \<le> 1 / 50"
    unfolding g2 same by (rule tol)
  moreover have "is_cents (avg_lodging_per_night dest) \<and> is_cents (avg_food_per_day dest)
          \<and> is_cents (avg_local_transport_per_day dest) \<longrightarrow>
          grand_total_est b1 = lodging b1 + food b1 + local_transport b1 + flights_est b1
                               + activities_est b1
        \<and> grand_total_est b2 = lodging b2 + food b2 + local_transport b2 + flights_est b2
                               + activities_est b2"
    using exact g1 g2 same by simp
  ultimately show ?thesis using run1 sb1 run2 sb2 g2 by blast
qed

theorem grand_total_is_sum_witness:
  "st_constraints (demo_planned 2000) = Some (default_constraints\<lparr>budget := 2000\<rparr>)
   \<and> selected_destination (demo_planned 2000) = Some (Some demo_lisbon)
   \<and> st_itinerary (demo_planned 2000) = Some demo_itinerary
   \<and> is_cents (avg_lodging_per_night demo_lisbon) \<and> is_cents (avg_food_per_day demo_lisbon)
   \<and> is_cents (avg_local_transport_per_day demo_lisbon)
   \<and> (\<exists>s1 b1 s2 b2.
       compute_budget (demo_planned 2000) = Inr s1 \<and> st_budget s1 = Some b1
     \<and> validate_and_adjust s1 = Inr s2 \<and> st_budget s2 = Some b2
     \<and> \<bar>grand_total_est b1 - (lodging b1 + food b1 + local_transport b1 + flights_est b1
                               + activities_est b1)\<bar> \<le> 1 / 50
     \<and> \<bar>grand_total_est b2 - (lodging b2 + food b2 + local_transport b2 + flights_est b2
                               + activities_est b2)\<bar> \<le> 1 / 50
     \<and> grand_total_est b1 = lodging b1 + food b1 + local_transport b1 + flights_est b1
                               + activities_est b1
     \<and> grand_total_est b2 = lodging b2 + food b2 + local_transport b2 + flights_est b2
                               + activities_est b2)"
proof -
  obtain s1 b1 s2 b2 where
    "compute_budget (demo_planned 2000) = Inr s1" "st_budget s1 = Some b1"
    "validate_and_adjust s1 = Inr s2" "st_budget s2 = Some b2"
    "\<bar>grand_total_est b1 - (lodging b1 + food b1 + local_transport b1 + flights_est b1
                               + activities_est b1)\<bar> \<le> 1 / 50"
    "\<bar>grand_total_est b2 - (lodging b2 + food b2 + local_transport b2 + flights_est b2
                               + activities_est b2)\<bar> \<le> 1 / 50"
    "grand_total_est b1 = lodging b1 + food b1 + local_transport b1 + flights_est b1
                               + activities_est b1"
    "grand_total_est b2 = lodging b2 + food b2 + local_transport b2 + flights_est b2
                               + activities_est b2"
    using grand_total_is_sum[OF demo_planned_fields, of 2000] demo_cents by blast
  then show ?thesis using demo_planned_fields[of 2000] demo_cents by blast
qed

text \<open>
  The claim as the specification words it, that \<open>grand_total_est\<close> equals the sum of the
  five parts for every breakdown of the pipeline, fails when the rates have more than two
  decimals. For five days, two travellers and the rates \<open>0.0049\<close>, \<open>0.00245\<close> and
  \<open>0.00245\<close>, the three parts \<open>0.0196\<close>, \<open>0.0245\<close> and \<open>0.0245\<close> round to \<open>0.02\<close> each,
  and their sum with the flights, \<open>900.0686\<close>, rounds to \<open>900.07\<close>: the grand total is
  \<open>900.07\<close> and the parts add up to \<open>900.06\<close>.
\<close>

theorem grand_total_sum_counterexample:
  "compute_budget demo_fine_planned
     = Inr (push (demo_fine_planned\<lparr>st_budget := Some demo_fine_breakdown\<rparr>)
              ''estimate_budget'' (P_budget demo_fine_breakdown))
   \<and> grand_total_est demo_fine_breakdown = 90007 / 100
   \<and> lodging demo_fine_breakdown + food demo_fine_breakdown
       + local_transport demo_fine_breakdown + flights_est demo_fine_breakdown
       + activities_est demo_fine_breakdown = 90006 / 100"
proof -
  have a: "estimate_activity_cost (build_itinerary demo_db demo_attractions (cps ''Faro'') 5
             [cps ''food'', cps ''museums''] (cps ''medium'')) = 0"
    by code_simp
  have b: "estimate_budget demo_fine_rates 5 2 450
            = \<lparr>lodging = 1 / 50, food = 1 / 50, local_transport = 1 / 50, flights_est = 900,
               total_est = 90007 / 100\<rparr>"
    by code_simp
  have c: "round2 (90007 / 100) = 90007 / 100" by code_simp
  have "compute_budget demo_fine_planned
     = Inr (push (demo_fine_planned\<lparr>st_budget := Some demo_fine_breakdown\<rparr>)
              ''estimate_budget'' (P_budget demo_fine_breakdown))"
    by (simp add: compute_budget_def demo_fine_planned_def initial_state_def
        default_constraints_def demo_fine_breakdown_def a b c Let_def)
  then show ?thesis by (simp add: demo_fine_breakdown_def)
qed

text \<open>
  Claim C7. When \<open>validate_and_adjust\<close> meets a breakdown whose flag is false, it adjusts
  the itinerary with a cap on paid activities that depends on the overage
  \<open>grand_total_est - budget\<close> only: 1 when the overage is above 500, 2 when it is above
  250 and at most 500, 3 when it is at most 250. The cap is recorded in the trace.
\<close>

theorem paid_activity_cap:
  assumes "st_constraints s = Some c" and "st_budget s = Some b" and "st_itinerary s = Some itin"
    and "\<not> within_budget b"
  shows "\<exists>cap nb.
       validate_and_adjust s
         = Inr (push (s\<lparr>st_itinerary := Some (adjust_itinerary_for_budget itin cap),
                        st_budget := Some nb\<rparr>)
                  ''validate_adjust'' (P_reduced cap nb))
     \<and> (500 < grand_total_est b - of_int (budget c) \<longrightarrow> cap = 1)
     \<and> (250 < grand_total_est b - of_int (budget c)
          \<and> grand_total_est b - of_int (budget c) \<le> 500 \<longrightarrow> cap = 2)
     \<and> (grand_total_est b - of_int (budget c) \<le> 250 \<longrightarrow> cap = 3)"
proof -
  define cap :: int where "cap = (if grand_total_est b - of_int (budget c) > 500 then 1
                else if grand_total_est b - of_int (budget c) > 250 then 2 else 3)"
  obtain nb where "validate_and_adjust s
         = Inr (push (s\<lparr>st_itinerary := Some (adjust_itinerary_for_budget itin cap),
                        st_budget := Some nb\<rparr>)
                  ''validate_adjust'' (P_reduced cap nb))"
    using validate_reduced[OF assms cap_def] by blast
  moreover have "500 < grand_total_est b - of_int (budget c) \<longrightarrow> cap = 1"
    "250 < grand_total_est b - of_int (budget c)
          \<and> grand_total_est b - of_int (budget c) \<le> 500 \<longrightarrow> cap = 2"
    "grand_total_est b - of_int (budget c) \<le> 250 \<longrightarrow> cap = 3"
    by (simp_all add: cap_def)
  ultimately show ?thesis by blast
qed

theorem paid_activity_cap_witness:
  "\<not> within_budget (demo_breakdown False)
   \<and> st_constraints (demo_budgeted 1148) = Some (default_constraints\<lparr>budget := 1148\<rparr>)
   \<and> st_budget (demo_budgeted 1148) = Some (demo_breakdown False)
   \<and> st_itinerary (demo_budgeted 1148) = Some demo_itinerary
   \<and> grand_total_est (demo_breakdown False) - 1148 = 600
   \<and> (\<exists>nb. validate_and_adjust (demo_budgeted 1148)
         = Inr (push ((demo_budgeted 1148)
                        \<lparr>st_itinerary := Some (adjust_itinerary_for_budget demo_itinerary 1),
                         st_budget := Some nb\<rparr>)
                  ''validate_adjust'' (P_reduced 1 nb)))
   \<and> st_constraints (demo_budgeted 1448) = Some (default_constraints\<lparr>budget := 1448\<rparr>)
   \<and> st_budget (demo_budgeted 1448) = Some (demo_breakdown False)
   \<and> st_itinerary (demo_budgeted 1448) = Some demo_itinerary
   \<and> grand_total_est (demo_breakdown False) - 1448 = 300
   \<and> (\<exists>nb. validate_and_adjust (demo_budgeted 1448)
         = Inr (push ((demo_budgeted 1448)
                        \<lparr>st_itinerary := Some (adjust_itinerary_for_budget demo_itinerary 2),
                         st_budget := Some nb\<rparr>)
                  ''validate_adjust'' (P_reduced 2 nb)))
   \<and> st_constraints (demo_budgeted 1648) = Some (default_constraints\<lparr>budget := 1648\<rparr>)
   \<and> st_budget (demo_budgeted 1648) = Some (demo_breakdown False)
   \<and> st_itinerary (demo_budgeted 1648) = Some demo_itinerary
   \<and> grand_total_est (demo_breakdown False) - 1648 = 100
   \<and> (\<exists>nb. validate_and_adjust (demo_budgeted 1648)
         = Inr (push ((demo_budgeted 1648)
                        \<lparr>st_itinerary := Some (adjust_itinerary_for_budget demo_itinerary 3),
                         st_budget := Some nb\<rparr>)
                  ''validate_adjust'' (P_reduced 3 nb)))"
proof -
  have w: "\<not> within_budget (demo_breakdown False)" by (simp add: demo_breakdown_def)
  have g: "grand_total_est (demo_breakdown False) = 1748" by (simp add: demo_breakdown_def)
  have f: "st_constraints (demo_budgeted 1148) = Some (default_constraints\<lparr>budget := 1148\<rparr>)"
    "st_budget (demo_budgeted 1148) = Some (demo_breakdown False)"
    "st_itinerary (demo_budgeted 1148) = Some demo_itinerary"
    "st_constraints (demo_budgeted 1448) = Some (default_constraints\<lparr>budget := 1448\<rparr>)"
    "st_budget (demo_budgeted 1448) = Some (demo_breakdown False)"
    "st_itinerary (demo_budgeted 1448) = Some demo_itinerary"
    "st_constraints (demo_budgeted 1648) = Some (default_constraints\<lparr>budget := 1648\<rparr>)"
    "st_budget (demo_budgeted 1648) = Some (demo_breakdown False)"
    "st_itinerary (demo_budgeted 1648) = Some demo_itinerary"
    by (simp_all add: demo_budgeted_fields)
  have a: "\<exists>nb. validate_and_adjust (demo_budgeted 1148)
         = Inr (push ((demo_budgeted 1148)
                        \<lparr>st_itinerary := Some (adjust_itinerary_for_budget demo_itinerary 1),
                         st_budget := Some nb\<rparr>)
                  ''validate_adjust'' (P_reduced 1 nb))"
    using paid_activity_cap[OF f(1,2,3) w] g by auto
  have b: "\<exists>nb. validate_and_adjust (demo_budgeted 1448)
         = Inr (push ((demo_budgeted 1448)
                        \<lparr>st_itinerary := Some (adjust_itinerary_for_budget demo_itinerary 2),
                         st_budget := Some nb\<rparr>)
                  ''validate_adjust'' (P_reduced 2 nb))"
    using paid_activity_cap[OF f(4,5,6) w] g by auto
  have c: "\<exists>nb. validate_and_adjust (demo_budgeted 1648)
         = Inr (push ((demo_budgeted 1648)
                        \<lparr>st_itinerary := Some (adjust_itinerary_for_budget demo_itinerary 3),
                         st_budget := Some nb\<rparr>)
                  ''validate_adjust'' (P_reduced 3 nb))"
    using paid_activity_cap[OF f(7,8,9) w] g by auto
  show ?thesis using w g f a b c by simp
qed



section \<open>The request parser: days and travellers\<close>

lemma case_option_const: "(case x of None \<Rightarrow> a | Some y \<Rightarrow> a) = a"
  by (cases x) simp_all

lemma parse_days:
  "days (parse_constraints u r) =
     (case re_search (re_days u) (str_lower u (strip u r)) of None \<Rightarrow> 5
      | Some (g1, g2) \<Rightarrow> safe_int u (group_or g1 g2) 5)"
  unfolding parse_constraints_def Let_def
  by (simp add: option.case_distrib[of days] prod.case_distrib[of days] if_distrib[of days]
        case_option_const default_constraints_def cong: option.case_cong)

lemma parse_travelers:
  "travelers (parse_constraints u r) =
     (case re_search (re_travelers u) (str_lower u (strip u r)) of None \<Rightarrow> 2
      | Some g1 \<Rightarrow> safe_int u (Some g1) 2)"
  unfolding parse_constraints_def Let_def
  by (simp add: option.case_distrib[of travelers] prod.case_distrib[of travelers]
        if_distrib[of travelers]
        case_option_const default_constraints_def cong: option.case_cong)

lemma first_mem: "(case xs of [] \<Rightarrow> None | g # _ \<Rightarrow> Some g) = Some g \<Longrightarrow> g \<in> set xs"
  by (cases xs) auto

lemma re_search_mem: "re_search m s = Some g \<Longrightarrow> \<exists>i. g \<in> set (m s i)"
proof -
  assume "re_search m s = Some g"
  then have "g \<in> set (concat (map (m s) [0..<Suc (length s)]))"
    unfolding re_search_def by (rule first_mem)
  then show ?thesis by auto
qed

lemma m_digits_mem:
  "b \<in> set (m_digits u lo hi s a) \<Longrightarrow>
     a \<le> b \<and> lo \<le> b - a \<and> b - a \<le> hi \<and> b - a \<le> length (takeWhile (is_digit u) (drop a s))"
  by (auto simp add: m_digits_def)

lemma take_takeWhile: "k \<le> length (takeWhile P xs) \<Longrightarrow> take k xs = take k (takeWhile P xs)"
proof -
  assume k: "k \<le> length (takeWhile P xs)"
  have "take k xs = take k (takeWhile P xs @ dropWhile P xs)" by simp
  also have "\<dots> = take k (takeWhile P xs)" using k by (simp del: takeWhile_dropWhile_id)
  finally show ?thesis .
qed

lemma group_text_digits:
  assumes "b \<in> set (m_digits u lo hi s a)"
  shows "list_all (is_digit u) (group_text s a b) \<and> length (group_text s a b) = b - a
         \<and> lo \<le> b - a \<and> b - a \<le> hi"
proof -
  from m_digits_mem[OF assms] have k: "b - a \<le> length (takeWhile (is_digit u) (drop a s))"
    and r: "lo \<le> b - a" "b - a \<le> hi" by simp_all
  have t: "group_text s a b = take (b - a) (takeWhile (is_digit u) (drop a s))"
    unfolding group_text_def using k by (rule take_takeWhile)
  have "set (group_text s a b) \<subseteq> set (takeWhile (is_digit u) (drop a s))"
    unfolding t by (rule set_take_subset)
  then have "list_all (is_digit u) (group_text s a b)"
    by (auto simp add: list_all_iff dest: set_takeWhileD)
  moreover have "length (group_text s a b) = b - a" unfolding t using k by simp
  ultimately show ?thesis using r by simp
qed

lemma digit_value_lt: "is_digit u c \<Longrightarrow> digit_value u c < 10"
  by (simp add: is_digit_def digit_value_def split: option.splits)

lemma digit_value_zero: "is_digit u c \<Longrightarrow> digit_value u c = 0 \<Longrightarrow> db_decimal u c = Some 0"
  by (simp add: is_digit_def digit_value_def split: option.splits)

lemma one_or_two:
  assumes "v \<noteq> []" and "length v \<le> 2"
  obtains c where "v = [c]" | c d where "v = [c, d]"
  using assms by (cases v rule: list.exhaust; simp; case_tac x22; simp)

lemma py_int_digits:
  assumes "v \<noteq> []" and "list_all (is_digit u) v" and "length v \<le> 2"
  shows "\<exists>n. py_int u v = Some n \<and> 0 \<le> n \<and> n \<le> 99"
proof -
  consider c where "v = [c]" | c d where "v = [c, d]"
    using assms(1,3) by (rule one_or_two)
  then show ?thesis
  proof cases
    case 1
    then show ?thesis using assms(2) digit_value_lt[of u c] by (simp add: py_int_def)
  next
    case 2
    then show ?thesis using assms(2) digit_value_lt[of u c] digit_value_lt[of u d]
      by (simp add: py_int_def)
  qed
qed

lemma safe_int_digits:
  assumes "v \<noteq> []" and "list_all (is_digit u) v" and "length v \<le> 2"
  shows "0 \<le> safe_int u (Some v) dflt \<and> safe_int u (Some v) dflt \<le> 99"
  using py_int_digits[OF assms] by (auto simp add: safe_int_def)

lemma re_days_groups:
  assumes "(g1, g2) \<in> set (re_days u s i)"
  shows "\<exists>v. group_or g1 g2 = Some v \<and> v \<noteq> [] \<and> list_all (is_digit u) v \<and> length v \<le> 2"
proof -
  from assms obtain a b where b: "b \<in> set (m_digits u 1 2 s a)"
    and g: "(g1, g2) = (Some (group_text s a b), None) \<or> (g1, g2) = (None, Some (group_text s a b))"
    unfolding re_days_def by auto
  from group_text_digits[OF b] have d: "list_all (is_digit u) (group_text s a b)"
    and l: "length (group_text s a b) = b - a" "1 \<le> b - a" "b - a \<le> 2" by simp_all
  have ne: "group_text s a b \<noteq> []" using l by auto
  show ?thesis using g d l ne by (auto simp add: group_or_def)
qed

lemma re_travelers_groups:
  assumes "g \<in> set (re_travelers u s i)"
  shows "g \<noteq> [] \<and> list_all (is_digit u) g \<and> length g \<le> 2"
proof -
  from assms obtain a b where b: "b \<in> set (m_digits u 1 2 s a)" and g: "g = group_text s a b"
    unfolding re_travelers_def by auto
  from group_text_digits[OF b] have d: "list_all (is_digit u) (group_text s a b)"
    and l: "length (group_text s a b) = b - a" "1 \<le> b - a" "b - a \<le> 2" by simp_all
  have ne: "group_text s a b \<noteq> []" using l by auto
  show ?thesis using g d l ne by simp
qed

lemma days_range: "0 \<le> days (parse_constraints u r) \<and> days (parse_constraints u r) \<le> 99"
proof (cases "re_search (re_days u) (str_lower u (strip u r))")
  case None
  then show ?thesis by (simp add: parse_days)
next
  case (Some g)
  obtain g1 g2 where g: "g = (g1, g2)" by (cases g)
  obtain i where "(g1, g2) \<in> set (re_days u (str_lower u (strip u r)) i)"
    using re_search_mem[OF Some] g by auto
  then obtain v where v: "group_or g1 g2 = Some v" "v \<noteq> []" "list_all (is_digit u) v" "length v \<le> 2"
    using re_days_groups by blast
  show ?thesis using safe_int_digits[OF v(2,3,4), of 5] Some g v(1) by (simp add: parse_days)
qed

lemma travelers_range:
  "0 \<le> travelers (parse_constraints u r) \<and> travelers (parse_constraints u r) \<le> 99"
proof (cases "re_search (re_travelers u) (str_lower u (strip u r))")
  case None
  then show ?thesis by (simp add: parse_travelers)
next
  case (Some g)
  obtain i where "g \<in> set (re_travelers u (str_lower u (strip u r)) i)"
    using re_search_mem[OF Some] by auto
  then have v: "g \<noteq> []" "list_all (is_digit u) g" "length g \<le> 2"
    using re_travelers_groups by blast+
  show ?thesis using safe_int_digits[OF v, of 2] Some by (simp add: parse_travelers)
qed

lemma py_int_zero:
  assumes "v \<noteq> []" and "list_all (is_digit u) v" and "length v \<le> 2" and "py_int u v = Some 0"
  shows "list_all (\<lambda>ch. db_decimal u ch = Some 0) v"
proof -
  consider c where "v = [c]" | c d where "v = [c, d]"
    using assms(1,3) by (rule one_or_two)
  then show ?thesis
  proof cases
    case 1
    then have "is_digit u c" and "digit_value u c = 0" using assms(2,4) by (simp_all add: py_int_def)
    then show ?thesis using 1 digit_value_zero[of u c] by simp
  next
    case 2
    then have dc: "is_digit u c" and dd: "is_digit u d" using assms(2) by simp_all
    have "10 * int (digit_value u c) + int (digit_value u d) = 0"
      using assms(2,4) 2 by (simp add: py_int_def)
    then have z: "digit_value u c = 0 \<and> digit_value u d = 0" by presburger
    show ?thesis using 2 z digit_value_zero[OF dc] digit_value_zero[OF dd] by simp
  qed
qed

lemma safe_int_zero:
  assumes "v \<noteq> []" and "list_all (is_digit u) v" and "length v \<le> 2" and "safe_int u (Some v) dflt = 0"
  shows "list_all (\<lambda>ch. db_decimal u ch = Some 0) v"
proof -
  obtain n where n: "py_int u v = Some n" using py_int_digits[OF assms(1-3)] by blast
  then have "n = 0" using assms(4) by (simp add: safe_int_def)
  then show ?thesis using py_int_zero[OF assms(1-3)] n by simp
qed

lemma days_zero:
  assumes "days (parse_constraints u r) = 0"
  shows "\<exists>g1 g2 v. re_search (re_days u) (str_lower u (strip u r)) = Some (g1, g2)
          \<and> group_or g1 g2 = Some v \<and> v \<noteq> [] \<and> length v \<le> 2
          \<and> list_all (\<lambda>ch. db_decimal u ch = Some 0) v"
proof (cases "re_search (re_days u) (str_lower u (strip u r))")
  case None
  then show ?thesis using assms by (simp add: parse_days)
next
  case (Some g)
  obtain g1 g2 where g: "g = (g1, g2)" by (cases g)
  obtain i where "(g1, g2) \<in> set (re_days u (str_lower u (strip u r)) i)"
    using re_search_mem[OF Some] g by auto
  then obtain v where v: "group_or g1 g2 = Some v" "v \<noteq> []" "list_all (is_digit u) v" "length v \<le> 2"
    using re_days_groups by blast
  have "safe_int u (Some v) 5 = 0" using assms Some g v(1) by (simp add: parse_days)
  then have "list_all (\<lambda>ch. db_decimal u ch = Some 0) v" by (rule safe_int_zero[OF v(2,3,4)])
  then show ?thesis using Some g v by blast
qed

lemma travelers_zero:
  assumes "travelers (parse_constraints u r) = 0"
  shows "\<exists>v. re_search (re_travelers u) (str_lower u (strip u r)) = Some v
          \<and> v \<noteq> [] \<and> length v \<le> 2 \<and> list_all (\<lambda>ch. db_decimal u ch = Some 0) v"
proof (cases "re_search (re_travelers u) (str_lower u (strip u r))")
  case None
  then show ?thesis using assms by (simp add: parse_travelers)
next
  case (Some g)
  obtain i where "g \<in> set (re_travelers u (str_lower u (strip u r)) i)"
    using re_search_mem[OF Some] by auto
  then have v: "g \<noteq> []" "list_all (is_digit u) g" "length g \<le> 2"
    using re_travelers_groups by blast+
  have "safe_int u (Some g) 2 = 0" using assms Some by (simp add: parse_travelers)
  then have "list_all (\<lambda>ch. db_decimal u ch = Some 0) g" by (rule safe_int_zero[OF v])
  then show ?thesis using Some v by blast
qed

lemma demo_zero_request:
  "parse_constraints demo_db (cps ''0 day trip for 0 people'')
     = default_constraints\<lparr>days := 0, travelers := 0\<rparr>"
  by code_simp

lemma demo_searches:
  "re_search (re_days demo_db) (request_text demo_db (initial_state (cps ''a quiet beach''))) = None"
  "re_search (re_travelers demo_db) (request_text demo_db (initial_state (cps ''a quiet beach'')))
     = None"
  "re_search (re_days demo_db)
     (request_text demo_db (initial_state (cps ''a 00-day break for 0 travelers'')))
     = Some (Some (cps ''00''), None)"
  "re_search (re_travelers demo_db)
     (request_text demo_db (initial_state (cps ''a 00-day break for 0 travelers'')))
     = Some (cps ''0'')"
  by code_simp+

lemma demo_break:
  "parse_constraints demo_db (cps ''a 00-day break for 0 travelers'')
     = default_constraints\<lparr>days := 0, travelers := 0\<rparr>"
  by code_simp

text \<open>
  Requests outside ASCII, read with the example database: the Arabic-Indic digit zero
  (code point 1632) is a day count of 0, a no-break space (code point 160) between the
  number and \<open>day\<close> is white space for \<open>\s*\<close>, and \<open>strip()\<close> removes a no-break space
  and a next-line character (code point 133) at the ends.
\<close>

lemma demo_unicode_requests:
  "days (parse_constraints demo_db (1632 # cps '' day trip'')) = 0"
  "days (parse_constraints demo_db (55 # 160 # cps ''day trip'')) = 7"
  "days (parse_constraints demo_db ([1635, 1637] @ cps ''-day trip'')) = 35"
  "travelers (parse_constraints demo_db (cps ''for'' @ [133, 1634] @ cps '' people'')) = 2"
  "strip demo_db (160 # cps '' 4 day '' @ [133]) = cps ''4 day''"
  by code_simp+

text \<open>
  Claim C10, as the code has it. For every request and every Unicode database,
  \<open>parse_request\<close> returns a state with a constraints record whose \<open>days\<close> and
  \<open>travelers\<close> are integers from 0 to 99. They are the defaults 5 and 2 when the pattern
  for the field finds nothing, and a field is 0 only when the number the pattern matched,
  one or two digits, has the digit zero (of any script) in every place.
\<close>

theorem parse_request_days_travelers:
  "\<exists>c. parse_request u s
         = Inr (push (s\<lparr>st_constraints := Some c\<rparr>) ''parse_request'' (P_constraints c))
     \<and> 0 \<le> days c \<and> days c \<le> 99 \<and> 0 \<le> travelers c \<and> travelers c \<le> 99
     \<and> (re_search (re_days u) (request_text u s) = None \<longrightarrow> days c = 5)
     \<and> (re_search (re_travelers u) (request_text u s) = None \<longrightarrow> travelers c = 2)
     \<and> (days c = 0 \<longrightarrow>
          (\<exists>g1 g2 v. re_search (re_days u) (request_text u s) = Some (g1, g2)
             \<and> group_or g1 g2 = Some v \<and> v \<noteq> [] \<and> length v \<le> 2
             \<and> list_all (\<lambda>ch. db_decimal u ch = Some 0) v))
     \<and> (travelers c = 0 \<longrightarrow>
          (\<exists>v. re_search (re_travelers u) (request_text u s) = Some v
             \<and> v \<noteq> [] \<and> length v \<le> 2 \<and> list_all (\<lambda>ch. db_decimal u ch = Some 0) v))"
proof -
  define r where "r = (case user_request s of None \<Rightarrow> [] | Some t \<Rightarrow> t)"
  have t: "request_text u s = str_lower u (strip u r)" by (simp add: request_text_def r_def)
  have run: "parse_request u s
         = Inr (push (s\<lparr>st_constraints := Some (parse_constraints u r)\<rparr>) ''parse_request''
                  (P_constraints (parse_constraints u r)))"
    by (simp add: parse_request_def r_def Let_def)
  have a: "re_search (re_days u) (request_text u s) = None \<longrightarrow> days (parse_constraints u r) = 5"
    by (simp add: parse_days t)
  have b: "re_search (re_travelers u) (request_text u s) = None
             \<longrightarrow> travelers (parse_constraints u r) = 2"
    by (simp add: parse_travelers t)
  have c: "days (parse_constraints u r) = 0 \<longrightarrow>
          (\<exists>g1 g2 v. re_search (re_days u) (request_text u s) = Some (g1, g2)
             \<and> group_or g1 g2 = Some v \<and> v \<noteq> [] \<and> length v \<le> 2
             \<and> list_all (\<lambda>ch. db_decimal u ch = Some 0) v)"
    using days_zero[of u r] unfolding t by blast
  have d: "travelers (parse_constraints u r) = 0 \<longrightarrow>
          (\<exists>v. re_search (re_travelers u) (request_text u s) = Some v
             \<and> v \<noteq> [] \<and> length v \<le> 2 \<and> list_all (\<lambda>ch. db_decimal u ch = Some 0) v)"
    using travelers_zero[of u r] unfolding t by blast
  show ?thesis
    by (rule exI[of _ "parse_constraints u r"])
      (use run days_range[of u r] travelers_range[of u r] a b c d in simp)
qed

theorem parse_request_days_travelers_witness:
  "re_search (re_days demo_db) (request_text demo_db (initial_state (cps ''a quiet beach''))) = None
   \<and> re_search (re_travelers demo_db) (request_text demo_db (initial_state (cps ''a quiet beach'')))
       = None
   \<and> (\<exists>c. parse_request demo_db (initial_state (cps ''a quiet beach''))
            = Inr (push ((initial_state (cps ''a quiet beach''))\<lparr>st_constraints := Some c\<rparr>)
                     ''parse_request'' (P_constraints c))
          \<and> days c = 5 \<and> travelers c = 2)
   \<and> (\<exists>c. parse_request demo_db (initial_state (cps ''a 00-day break for 0 travelers''))
            = Inr (push ((initial_state (cps ''a 00-day break for 0 travelers''))
                           \<lparr>st_constraints := Some c\<rparr>)
                     ''parse_request'' (P_constraints c))
          \<and> days c = 0 \<and> travelers c = 0
          \<and> re_search (re_days demo_db)
               (request_text demo_db (initial_state (cps ''a 00-day break for 0 travelers'')))
              = Some (Some (cps ''00''), None)
          \<and> re_search (re_travelers demo_db)
               (request_text demo_db (initial_state (cps ''a 00-day break for 0 travelers'')))
              = Some (cps ''0''))"
proof -
  have a: "\<exists>c. parse_request demo_db (initial_state (cps ''a quiet beach''))
            = Inr (push ((initial_state (cps ''a quiet beach''))\<lparr>st_constraints := Some c\<rparr>)
                     ''parse_request'' (P_constraints c))
          \<and> days c = 5 \<and> travelers c = 2"
    using parse_request_days_travelers[of demo_db "initial_state (cps ''a quiet beach'')"]
      demo_searches(1,2)
    by auto
  obtain c where c: "parse_request demo_db (initial_state (cps ''a 00-day break for 0 travelers''))
            = Inr (push ((initial_state (cps ''a 00-day break for 0 travelers''))
                           \<lparr>st_constraints := Some c\<rparr>)
                     ''parse_request'' (P_constraints c))"
    using parse_request_days_travelers[of demo_db
        "initial_state (cps ''a 00-day break for 0 travelers'')"]
    by blast
  have "parse_request demo_db (initial_state (cps ''a 00-day break for 0 travelers''))
            = Inr (push ((initial_state (cps ''a 00-day break for 0 travelers''))
                           \<lparr>st_constraints := Some (default_constraints\<lparr>days := 0, travelers := 0\<rparr>)\<rparr>)
                     ''parse_request'' (P_constraints (default_constraints\<lparr>days := 0, travelers := 0\<rparr>)))"
    by (simp add: parse_request_def initial_state_def demo_break Let_def)
  then have "c = default_constraints\<lparr>days := 0, travelers := 0\<rparr>"
    using c by (simp add: push_def initial_state_def)
  then have "days c = 0 \<and> travelers c = 0" by simp
  then show ?thesis using a c demo_searches by blast
qed

text \<open>
  Claim C10 as stated asks for positive fields. The request \<open>0 day trip for 0 people\<close>
  matches both patterns with the number 0, and \<open>parse_request\<close> stores \<open>days = 0\<close> and
  \<open>travelers = 0\<close>.
\<close>

theorem parse_request_zero_counterexample:
  "parse_request demo_db (initial_state (cps ''0 day trip for 0 people''))
     = Inr (push ((initial_state (cps ''0 day trip for 0 people''))
                    \<lparr>st_constraints := Some (default_constraints\<lparr>days := 0, travelers := 0\<rparr>)\<rparr>)
              ''parse_request'' (P_constraints (default_constraints\<lparr>days := 0, travelers := 0\<rparr>)))
   \<and> \<not> 0 < days (default_constraints\<lparr>days := 0, travelers := 0\<rparr>)
   \<and> \<not> 0 < travelers (default_constraints\<lparr>days := 0, travelers := 0\<rparr>)"
  by (simp add: parse_request_def initial_state_def demo_zero_request Let_def)

section \<open>A run without a matching destination\<close>

lemma demo_trip:
  "parse_constraints demo_db (cps ''a 3 day trip'') = default_constraints\<lparr>days := 3\<rparr>"
  by code_simp

lemma demo_asia:
  "parse_constraints demo_db (cps ''a week in asia'')
     = default_constraints\<lparr>region := Some (cps ''asia'')\<rparr>"
  by code_simp

lemma demo_asia_search:
  "search_destinations demo_db [demo_rome, demo_lisbon, demo_porto] (Some (cps ''asia''))
     [cps ''food'', cps ''museums''] = []"
  by code_simp

text \<open>
  Claim C2, as the code has it. When \<open>search_destinations\<close> returns no destination for
  the region and interests of the request, the list of proposed concepts is empty,
  \<open>choose_destination\<close> completes with the selection \<open>None\<close> (and the rough total
  \<open>float("inf")\<close>) and writes its trace entry, and the run ends with an exception in the
  next node, \<open>build_itinerary\<close>, which subscripts the selection. The run has no final
  plan: its result is the failure, with the trace of the three nodes that completed.
\<close>

theorem no_destination_aborts:
  assumes "search_destinations u dests (region (parse_constraints u request))
             (interests (parse_constraints u request)) = []"
  shows "propose_trip_concepts (parse_constraints u request) [] = []
     \<and> run u dests attrs fmt request
         = Inl (Failure ''build_itinerary'' (TypeError ''NoneType object is not subscriptable'')
                  [(''parse_request'', P_constraints (parse_constraints u request)),
                   (''propose_options'', P_options []),
                   (''choose_destination'', P_selected None None)])"
  using assms
  by (simp add: run_def run_node_def parse_request_def make_options_def choose_destination_def
        build_plan_def push_def initial_state_def propose_trip_concepts_def Let_def)

theorem no_destination_aborts_witness:
  "search_destinations demo_db [demo_rome, demo_lisbon, demo_porto]
     (region (parse_constraints demo_db (cps ''a week in asia'')))
     (interests (parse_constraints demo_db (cps ''a week in asia''))) = []
   \<and> run demo_db [demo_rome, demo_lisbon, demo_porto] demo_attractions fmt_cents
         (cps ''a week in asia'')
       = Inl (Failure ''build_itinerary'' (TypeError ''NoneType object is not subscriptable'')
                [(''parse_request'',
                  P_constraints (default_constraints\<lparr>region := Some (cps ''asia'')\<rparr>)),
                 (''propose_options'', P_options []),
                 (''choose_destination'', P_selected None None)])"
proof -
  have h: "search_destinations demo_db [demo_rome, demo_lisbon, demo_porto]
     (region (parse_constraints demo_db (cps ''a week in asia'')))
     (interests (parse_constraints demo_db (cps ''a week in asia''))) = []"
    using demo_asia_search by (simp add: demo_asia default_constraints_def)
  show ?thesis
    using h no_destination_aborts[OF h, of demo_attractions fmt_cents] by (simp add: demo_asia)
qed

text \<open>
  Claim C2 as stated has the run end before \<open>choose_destination\<close> completes. With an
  empty catalogue, the run of the request \<open>a 3 day trip\<close> fails in \<open>build_itinerary\<close>,
  and the trace at that point holds the entry of \<open>choose_destination\<close>.
\<close>

theorem no_destination_counterexample:
  "run demo_db [] [] fmt_cents (cps ''a 3 day trip'')
     = Inl (Failure ''build_itinerary'' (TypeError ''NoneType object is not subscriptable'')
              [(''parse_request'', P_constraints (default_constraints\<lparr>days := 3\<rparr>)),
               (''propose_options'', P_options []),
               (''choose_destination'', P_selected None None)])"
  by (simp add: run_def run_node_def parse_request_def make_options_def choose_destination_def
        build_plan_def push_def initial_state_def propose_trip_concepts_def Let_def
        demo_trip search_destinations_def default_constraints_def)

end
